theory Spec2Isabelle
  imports Main "HOL-Library.Multiset" "HOL-Library.Char_ord" "HOL-Library.List_Lexorder"
begin

section \<open>Text primitives of the log parser\<close>

text \<open>
  The output of the git subprocess is modelled as the text that remains to be read from
  its standard output. Decoding is the identity: a character of the decoded text is an
  8-bit \<^typ>\<open>char\<close> (exact for ASCII, which is all that git prints in the fields the parser
  inspects), and no line fails to decode.
\<close>

abbreviation NL :: char where "NL \<equiv> CHR 0x0A"
abbreviation TAB :: char where "TAB \<equiv> CHR 0x09"

text \<open>\<^verbatim>\<open>git_log.stdout.readline()\<close>: the text up to and including the next newline, or
  all that is left when no newline follows; the empty string at end of stream.\<close>

fun readline :: "string \<Rightarrow> string \<times> string" where
  "readline [] = ([], [])"
| "readline (c # cs) =
     (if c = NL then ([c], cs)
      else (case readline cs of (l, r) \<Rightarrow> (c # l, r)))"

text \<open>The characters that \<^verbatim>\<open>str.strip()\<close> removes and that \<^verbatim>\<open>\s\<close> matches, among the
  first 256 code points.\<close>

definition isspace :: "char \<Rightarrow> bool" where
  "isspace c \<longleftrightarrow> c \<in> {CHR 0x09, CHR 0x0A, CHR 0x0B, CHR 0x0C, CHR 0x0D,
                      CHR 0x1C, CHR 0x1D, CHR 0x1E, CHR 0x1F, CHR 0x20,
                      CHR 0x85, CHR 0xA0}"

definition isdigit :: "char \<Rightarrow> bool" where
  "isdigit c \<longleftrightarrow> c \<in> set ''0123456789''"

definition strip_chars :: "(char \<Rightarrow> bool) \<Rightarrow> string \<Rightarrow> string" where
  "strip_chars P s = rev (dropWhile P (rev (dropWhile P s)))"

text \<open>\<^verbatim>\<open>line.strip()\<close> and \<^verbatim>\<open>line.strip('\n')\<close>.\<close>

definition strip :: "string \<Rightarrow> string" where
  "strip s = strip_chars isspace s"

definition strip_nl :: "string \<Rightarrow> string" where
  "strip_nl s = strip_chars (\<lambda>c. c = NL) s"

section \<open>The regular expression of the change classifier\<close>

text \<open>
  The fragment of Python's \<^verbatim>\<open>re\<close> that \<^verbatim>\<open>_git_log_regex\<close> and the eclass pattern are
  written in. A one-or-more repetition is of a character class only, and greedy.
\<close>

datatype regex =
    Lit string
  | Plus "char \<Rightarrow> bool"
  | Bol
  | Eol
  | Seq regex regex
  | Alt regex regex
  | Group nat regex

text \<open>
  A matcher state is the position in the subject, the text that remains and the groups
  captured so far. \<open>rmatch\<close> lists every way the expression can match at that state, in
  the order in which a backtracking matcher tries them: the longest repetition first, the
  left alternative first. The head of the list is the match that Python reports.
\<close>

type_synonym mstate = "nat \<times> string \<times> (nat \<rightharpoonup> string)"

fun rmatch :: "regex \<Rightarrow> mstate \<Rightarrow> mstate list" where
  "rmatch (Lit l) (n, s, g) =
     (if take (length l) s = l then [(n + length l, drop (length l) s, g)] else [])"
| "rmatch (Plus P) (n, s, g) =
     map (\<lambda>i. (n + i, drop i s, g)) (rev [1..<Suc (length (takeWhile P s))])"
| "rmatch Bol (n, s, g) = (if n = 0 then [(n, s, g)] else [])"
| "rmatch Eol (n, s, g) = (if s = [] \<or> s = [NL] then [(n, s, g)] else [])"
| "rmatch (Seq a b) st = concat (map (rmatch b) (rmatch a st))"
| "rmatch (Alt a b) st = rmatch a st @ rmatch b st"
| "rmatch (Group i r) (n, s, g) =
     map (\<lambda>(n', s', g'). (n', s', g'(i \<mapsto> take (n' - n) s))) (rmatch r (n, s, g))"

text \<open>\<^verbatim>\<open>pattern.match(line)\<close>: the groups of the first match at position 0, if any.\<close>

definition re_match :: "regex \<Rightarrow> string \<Rightarrow> (nat \<rightharpoonup> string) option" where
  "re_match r line =
     (case rmatch r (0, line, Map.empty) of [] \<Rightarrow> None | (n, s, g) # _ \<Rightarrow> Some g)"

fun seqs :: "regex list \<Rightarrow> regex" where
  "seqs [] = Lit []"
| "seqs [r] = r"
| "seqs (r # rs) = Seq r (seqs rs)"

text \<open>\<^verbatim>\<open>_ebuild_regex = '([^/]+)/[^/]+/([^/]+)\.ebuild'\<close>, its two groups numbered \<open>i\<close>
  and \<open>i + 1\<close>.\<close>

definition not_slash :: "char \<Rightarrow> bool" where
  "not_slash c \<longleftrightarrow> c \<noteq> CHR ''/''"

definition ebuild_regex :: "nat \<Rightarrow> regex" where
  "ebuild_regex i =
     seqs [Group i (Plus not_slash), Lit ''/'', Plus not_slash, Lit ''/'',
           Group (i + 1) (Plus not_slash), Lit ''.ebuild'']"

text \<open>\<^verbatim>\<open>^([ADM])\t{_ebuild_regex}|(R)\d+\t{_ebuild_regex}\t{_ebuild_regex}$\<close>: the
  alternation binds weakest, so \<^verbatim>\<open>^\<close> belongs to the first alternative and \<^verbatim>\<open>$\<close> to the
  second.\<close>

definition git_log_regex :: regex where
  "git_log_regex =
     Alt (seqs [Bol, Group 1 (Alt (Lit ''A'') (Alt (Lit ''D'') (Lit ''M''))), Lit [TAB],
                ebuild_regex 2])
         (seqs [Group 4 (Lit ''R''), Plus isdigit, Lit [TAB], ebuild_regex 5, Lit [TAB],
                ebuild_regex 7, Eol])"

section \<open>Commits, atoms and package changes\<close>

text \<open>\<^verbatim>\<open>class GitCommit\<close>.\<close>

record GitCommit =
  hash :: string
  commit_date :: string
  author :: string
  committer :: string
  message :: "string list"

text \<open>
  An atom of the package library, as far as this module reads it: the attributes
  \<^verbatim>\<open>category\<close>, \<^verbatim>\<open>package\<close> and \<^verbatim>\<open>fullver\<close>. The log parser builds atoms only from
  strings \<^verbatim>\<open>=category/package-version\<close>, which these attributes determine, so equality
  of atoms is equality of the three. (The scan-scope resolver builds atoms without a
  version and never reads \<^verbatim>\<open>fullver\<close>.) The library's constructor \<^verbatim>\<open>atom_cls\<close> is a
  parameter \<open>atom_cls\<close> of the model: \<open>None\<close> stands for \<^verbatim>\<open>MalformedAtom\<close>.
\<close>

record atom =
  category :: string
  package :: string
  fullver :: string

text \<open>\<^verbatim>\<open>class GitPkgChange\<close>; \<open>data\<close> is the dictionary of the keyword arguments.\<close>

record GitPkgChange =
  atom :: atom
  status :: string
  commit :: GitCommit
  data :: "(string \<times> atom) list"

text \<open>What the generator \<^verbatim>\<open>parse_git_log\<close> yields.\<close>

datatype item = Commit GitCommit | PkgChange GitPkgChange

datatype py_error = IndexError | KeyError

text \<open>How a call ends: it returns, it raises, or it never returns.\<close>

datatype 'a outcome = Returns 'a | Raises py_error | Diverges

section \<open>The change classifier\<close>

text \<open>An f-string field: \<^verbatim>\<open>None\<close> is formatted as its name.\<close>

fun fstr :: "string option \<Rightarrow> string" where
  "fstr None = ''None''"
| "fstr (Some s) = s"

text \<open>
  The body of the file-change loop for one stripped line (lines 164 to 186 of
  \<^verbatim>\<open>git.py\<close>): the events it yields. Groups 1 to 8 are \<^verbatim>\<open>data[0]\<close> to \<^verbatim>\<open>data[7]\<close>. A
  \<^verbatim>\<open>MalformedAtom\<close> ends the handling of the line; what was yielded before it stays
  yielded. Group 4 takes part in every match in which group 1 does not (lemma
  \<open>rename_alternative_sets_group_4\<close> below), so the last branch is never taken.
\<close>

definition file_change :: "(string \<Rightarrow> atom option) \<Rightarrow> bool \<Rightarrow> bool \<Rightarrow> GitCommit \<Rightarrow> string \<Rightarrow> item list" where
  "file_change atom_cls pkgs local cm line =
     (if pkgs \<and> line \<noteq> [] then
        (case re_match git_log_regex line of
           None \<Rightarrow> []
         | Some g \<Rightarrow>
             (case g 1 of
                Some st \<Rightarrow>
                  (case atom_cls (''='' @ fstr (g 2) @ ''/'' @ fstr (g 3)) of
                     None \<Rightarrow> []
                   | Some a \<Rightarrow>
                       [PkgChange \<lparr>atom = a, status = st, commit = cm, data = []\<rparr>])
              | None \<Rightarrow>
                  (case g 4 of
                     Some st \<Rightarrow>
                       (case atom_cls (''='' @ fstr (g 5) @ ''/'' @ fstr (g 6)) of
                          None \<Rightarrow> []
                        | Some old_atom \<Rightarrow>
                            PkgChange \<lparr>atom = old_atom, status = st, commit = cm, data = []\<rparr> #
                            (if local then
                               (case atom_cls (''='' @ fstr (g 7) @ ''/'' @ fstr (g 8)) of
                                  None \<Rightarrow> []
                                | Some a \<Rightarrow>
                                    [PkgChange \<lparr>atom = a, status = st, commit = cm,
                                                data = [(''old_atom'', old_atom)]\<rparr>])
                             else []))
                   | None \<Rightarrow> [])))
      else [])"

section \<open>The log parser\<close>

lemma readline_not_longer: "length (snd (readline s)) \<le> length s"
  by (induction s) (auto split: prod.splits)

lemma readline_shorter: "s \<noteq> [] \<Longrightarrow> length (snd (readline s)) < length s"
proof (cases s)
  case Nil
  assume "s \<noteq> []"
  with Nil show ?thesis by simp
next
  case (Cons c cs)
  have "length (snd (readline cs)) \<le> length cs" by (rule readline_not_longer)
  with Cons show ?thesis by (auto split: prod.splits)
qed

lemma readline_shorter_pair: "s \<noteq> [] \<Longrightarrow> (x, y) = readline s \<Longrightarrow> length y < length s"
  using readline_shorter [of s] by (cases "readline s") simp

lemma readline_not_longer_pair: "(x, y) = readline s \<Longrightarrow> length y \<le> length s"
  using readline_not_longer [of s] by (cases "readline s") simp

lemma readline_empty: "fst (readline s) = [] \<longleftrightarrow> s = []"
  by (cases s) (auto split: prod.splits)

text \<open>
  The message loop (lines 141 to 148), from the text \<open>s\<close> that remains and the lines
  accumulated so far. At end of stream \<^verbatim>\<open>readline\<close> returns the empty string for ever,
  which is never the sentinel: the loop does not end. \<^verbatim>\<open>message[-1]\<close> on an empty list
  raises \<^verbatim>\<open>IndexError\<close>.
\<close>

function read_message :: "string \<Rightarrow> string list \<Rightarrow> (string list \<times> string) outcome" where
  "read_message s msg =
     (if s = [] then Diverges
      else (case readline s of (raw, rest) \<Rightarrow>
        (let line = strip_nl raw in
         if line = ''# END MESSAGE BODY'' then
           (if msg = [] then Raises IndexError
            else Returns (if last msg = [] then butlast msg else msg, rest))
         else read_message rest (msg @ [line]))))"
  by pat_completeness auto
termination
  by (relation "measure (\<lambda>(s, msg). length s)") (simp_all add: readline_shorter_pair)

declare read_message.simps [simp del]

lemma read_message_shorter:
  "read_message s msg = Returns (m, r) \<Longrightarrow> length r < length s"
proof (induction s msg rule: read_message.induct)
  case (1 s msg)
  note eq = "1.prems" [unfolded read_message.simps [of s msg]]
  show ?case
  proof (cases "s = []")
    case True
    with eq show ?thesis by simp
  next
    case False
    obtain raw rest where rl: "readline s = (raw, rest)" by (cases "readline s")
    have less: "length rest < length s"
      using False rl readline_shorter_pair [of s raw rest] by simp
    show ?thesis
    proof (cases "strip_nl raw = ''# END MESSAGE BODY''")
      case True
      with eq False rl have "r = rest"
        by (simp split: if_splits)
      with less show ?thesis by simp
    next
      case neq: False
      from eq False rl neq have "read_message rest (msg @ [strip_nl raw]) = Returns (m, r)"
        by simp
      with "1.IH" [OF False rl [symmetric] refl neq] have "length r < length rest" by simp
      with less show ?thesis by simp
    qed
  qed
qed

text \<open>
  The file-change loop (lines 159 to 186): the events it yields, the line on which it
  stops (the begin sentinel, or the empty string of the end of the stream) and the text
  that remains.
\<close>

function read_changes :: "(string \<Rightarrow> atom option) \<Rightarrow> bool \<Rightarrow> bool \<Rightarrow> GitCommit \<Rightarrow> string
    \<Rightarrow> item list \<times> string \<times> string" where
  "read_changes atom_cls pkgs local cm s =
     (case readline s of (line, rest) \<Rightarrow>
        if line = ''# BEGIN COMMIT'' @ [NL] \<or> line = [] then ([], line, rest)
        else (case read_changes atom_cls pkgs local cm rest of (evs, l, r) \<Rightarrow>
                (file_change atom_cls pkgs local cm (strip line) @ evs, l, r)))"
  by pat_completeness auto
termination
proof (relation "measure (\<lambda>(atom_cls, pkgs, local, cm, s). length s)")
  show "wf (measure (\<lambda>(atom_cls, pkgs, local, cm, s). length s))" by simp
next
  fix atom_cls :: "string \<Rightarrow> atom option" and pkgs local :: bool and cm :: GitCommit
    and s line rest :: string
  assume rl: "(line, rest) = readline s" and "\<not> (line = ''# BEGIN COMMIT'' @ [NL] \<or> line = [])"
  then have "fst (readline s) \<noteq> []" by (metis fst_conv)
  then have "s \<noteq> []" by (simp add: readline_empty)
  with rl show "((atom_cls, pkgs, local, cm, rest), (atom_cls, pkgs, local, cm, s))
      \<in> measure (\<lambda>(atom_cls, pkgs, local, cm, s). length s)"
    by (simp add: readline_shorter_pair)
qed

declare read_changes.simps [simp del]

lemma read_changes_not_longer:
  "read_changes atom_cls pkgs local cm s = (evs, l, r) \<Longrightarrow> length r \<le> length s"
proof (induction atom_cls pkgs local cm s arbitrary: evs l r rule: read_changes.induct)
  case (1 atom_cls pkgs local cm s)
  note eq = "1.prems" [unfolded read_changes.simps [of atom_cls pkgs local cm s]]
  obtain line rest where rl: "readline s = (line, rest)" by (cases "readline s")
  have le: "length rest \<le> length s"
    using rl readline_not_longer_pair [of line rest s] by simp
  show ?case
  proof (cases "line = ''# BEGIN COMMIT'' @ [NL] \<or> line = []")
    case True
    with eq rl have "r = rest" by auto
    with le show ?thesis by simp
  next
    case False
    obtain evs' l' r' where rc: "read_changes atom_cls pkgs local cm rest = (evs', l', r')"
      by (cases "read_changes atom_cls pkgs local cm rest")
    from "1.IH" [OF rl [symmetric] False rc] have "length r' \<le> length rest" .
    moreover from eq rl False rc have "r = r'" by auto
    ultimately show ?thesis using le by simp
  qed
qed

lemma commits_loop_decreases:
  assumes "(l1, s1) = readline s" and "(l2, s2) = readline s1" and "(l3, s3) = readline s2"
    and "(l4, s4) = readline s3" and "read_message s4 [] = Returns (msg, s5)"
    and "(evs, line', s6) = read_changes atom_cls pkgs local cm s5"
  shows "length s6 < length s"
proof -
  have "length s4 \<le> length s"
    using assms(1-4) readline_not_longer_pair [of l1 s1 s] readline_not_longer_pair [of l2 s2 s1]
      readline_not_longer_pair [of l3 s3 s2] readline_not_longer_pair [of l4 s4 s3]
    by linarith
  moreover have "length s5 < length s4"
    using assms(5) by (rule read_message_shorter)
  moreover have "length s6 \<le> length s5"
    using assms(6) read_changes_not_longer [of atom_cls pkgs local cm s5 evs line' s6] by simp
  ultimately show ?thesis by linarith
qed

text \<open>
  The commit loop (lines 134 to 186), from the line on which the previous round stopped
  and the text that remains: the items yielded, in order, and how the generator ends
  (\<open>Returns ()\<close> is its exhaustion). The progress display is not modelled.
\<close>

function commits_loop :: "(string \<Rightarrow> atom option) \<Rightarrow> bool \<Rightarrow> bool \<Rightarrow> string \<Rightarrow> string
    \<Rightarrow> item list \<times> unit outcome" where
  "commits_loop atom_cls pkgs local line s =
     (if line = [] then ([], Returns ())
      else
        (case readline s of (l1, s1) \<Rightarrow>
         case readline s1 of (l2, s2) \<Rightarrow>
         case readline s2 of (l3, s3) \<Rightarrow>
         case readline s3 of (l4, s4) \<Rightarrow>
           (case read_message s4 [] of
              Diverges \<Rightarrow> ([], Diverges)
            | Raises e \<Rightarrow> ([], Raises e)
            | Returns (msg, s5) \<Rightarrow>
                (let cm = \<lparr>hash = strip l1, commit_date = strip l2, author = strip l3,
                           committer = strip l4, message = msg\<rparr>
                 in case read_changes atom_cls pkgs local cm s5 of (evs, line', s6) \<Rightarrow>
                    case commits_loop atom_cls pkgs local line' s6 of (later, e) \<Rightarrow>
                      ((if \<not> pkgs then [Commit cm] else []) @ evs @ later, e)))))"
  by pat_completeness auto
termination
  by (relation "measure (\<lambda>(atom_cls, pkgs, local, line, s). length s)")
    (auto intro: commits_loop_decreases)

declare commits_loop.simps [simp del]

text \<open>
  The git subprocess as the parser sees it: what it writes to its standard output, and
  what \<^verbatim>\<open>poll()\<close> answers after the first line was read (\<open>None\<close> while it runs).
\<close>

record git_process =
  stdout :: string
  poll :: "int option"

text \<open>
  \<^verbatim>\<open>ParsedGitRepo.parse_git_log\<close>. \<open>git_log\<close> is the oracle for the subprocess started on
  the commit range. A true \<^verbatim>\<open>poll()\<close> (a non-zero exit status) makes the generator return
  at once, after a warning.
\<close>

definition parse_git_log :: "(string \<Rightarrow> git_process) \<Rightarrow> (string \<Rightarrow> atom option) \<Rightarrow> string \<Rightarrow> bool \<Rightarrow> bool
    \<Rightarrow> item list \<times> unit outcome" where
  "parse_git_log git_log atom_cls commit_range pkgs local =
     (case readline (stdout (git_log commit_range)) of (l, s) \<Rightarrow>
        (let line = strip l in
         if poll (git_log commit_range) \<noteq> None \<and> poll (git_log commit_range) \<noteq> Some 0
         then ([], Returns ())
         else commits_loop atom_cls pkgs local line s))"

section \<open>The history cache\<close>

text \<open>
  The tuple that \<^verbatim>\<open>update\<close> records: \<^verbatim>\<open>(fullver, commit_date, hash)\<close>, or in local mode
  \<^verbatim>\<open>(fullver, commit_date, commit, data)\<close>.
\<close>

datatype commit_tuple =
    Tuple3 string string string
  | Tuple4 string string GitCommit "(string \<times> atom) list"

text \<open>
  A Python dictionary keeps its keys in insertion order: it is an association list in
  which a key is looked up with \<^const>\<open>map_of\<close>. The cache data is
  \<^verbatim>\<open>category -> package -> status -> list of tuples\<close>.
\<close>

type_synonym status_dict = "(string \<times> commit_tuple list) list"
type_synonym package_dict = "(string \<times> status_dict) list"
type_synonym cache_data = "(string \<times> package_dict) list"

text \<open>
  \<^verbatim>\<open>d.setdefault(k, default)\<close> followed by the in-place change \<open>f\<close> of the value it
  returns: an existing key keeps its place, a new key goes last.
\<close>

fun setdefault :: "'k \<Rightarrow> 'v \<Rightarrow> ('v \<Rightarrow> 'v) \<Rightarrow> ('k \<times> 'v) list \<Rightarrow> ('k \<times> 'v) list" where
  "setdefault k dflt f [] = [(k, f dflt)]"
| "setdefault k dflt f ((k', v) # kvs) =
     (if k' = k then (k', f v) # kvs else (k', v) # setdefault k dflt f kvs)"

text \<open>Line 102:
  \<^verbatim>\<open>data.setdefault(category, {}).setdefault(package, {}).setdefault(status, []).append(commit)\<close>.\<close>

definition record_commit :: "string \<Rightarrow> string \<Rightarrow> string \<Rightarrow> commit_tuple \<Rightarrow> cache_data \<Rightarrow> cache_data" where
  "record_commit c p st t d =
     setdefault c [] (setdefault p [] (setdefault st [] (\<lambda>l. l @ [t]))) d"

text \<open>The tuple built for a package change (lines 98 to 101).\<close>

definition commit_tuple_of :: "bool \<Rightarrow> GitPkgChange \<Rightarrow> commit_tuple" where
  "commit_tuple_of local pkg =
     (if local
      then Tuple4 (fullver (atom pkg)) (commit_date (commit pkg)) (commit pkg) (data pkg)
      else Tuple3 (fullver (atom pkg)) (commit_date (commit pkg)) (hash (commit pkg)))"

text \<open>The loop of \<^verbatim>\<open>update\<close> over the package changes that the parser yields (lines 93
  to 103), from the set \<open>seen\<close> and the data so far.\<close>

fun update_loop :: "bool \<Rightarrow> GitPkgChange list \<Rightarrow> (atom \<times> string) set \<Rightarrow> cache_data \<Rightarrow> cache_data" where
  "update_loop local [] seen d = d"
| "update_loop local (pkg # pkgs) seen d =
     (let a = atom pkg; key = (a, status pkg) in
      if key \<notin> seen then
        update_loop local pkgs (insert key seen)
          (record_commit (category a) (package a) (status pkg) (commit_tuple_of local pkg) d)
      else update_loop local pkgs seen d)"

text \<open>The package changes among the yielded items. With \<^verbatim>\<open>pkgs=True\<close> the generator
  yields nothing else.\<close>

fun pkg_changes :: "item list \<Rightarrow> GitPkgChange list" where
  "pkg_changes [] = []"
| "pkg_changes (PkgChange p # xs) = p # pkg_changes xs"
| "pkg_changes (Commit c # xs) = pkg_changes xs"

text \<open>
  \<^verbatim>\<open>ParsedGitRepo.update\<close>. \<open>None\<close> for the data is the empty dictionary. The loop
  consumes the generator to its end, so an error of the parser, or its not returning, is
  the call's.
\<close>

definition update :: "(string \<Rightarrow> git_process) \<Rightarrow> (string \<Rightarrow> atom option) \<Rightarrow> string
    \<Rightarrow> cache_data option \<Rightarrow> bool \<Rightarrow> cache_data outcome" where
  "update git_log atom_cls commit_range data_arg local =
     (let d = (case data_arg of None \<Rightarrow> [] | Some d \<Rightarrow> d) in
      case parse_git_log git_log atom_cls commit_range True local of
        (items, Returns u) \<Rightarrow> Returns (update_loop local (pkg_changes items) {} d)
      | (items, Raises e) \<Rightarrow> Raises e
      | (items, Diverges) \<Rightarrow> Diverges)"

text \<open>\<^verbatim>\<open>data[c][p][st]\<close>, where every key is present.\<close>

definition lookup :: "cache_data \<Rightarrow> string \<Rightarrow> string \<Rightarrow> string \<Rightarrow> commit_tuple list option" where
  "lookup d c p st =
     (case map_of d c of None \<Rightarrow> None
      | Some pd \<Rightarrow> (case map_of pd p of None \<Rightarrow> None | Some sd \<Rightarrow> map_of sd st))"

section \<open>Auxiliary notions of the parser\<close>

text \<open>The groups that an expression can set.\<close>

fun groups_of :: "regex \<Rightarrow> nat set" where
  "groups_of (Lit l) = {}"
| "groups_of (Plus P) = {}"
| "groups_of Bol = {}"
| "groups_of Eol = {}"
| "groups_of (Seq a b) = groups_of a \<union> groups_of b"
| "groups_of (Alt a b) = groups_of a \<union> groups_of b"
| "groups_of (Group i r) = insert i (groups_of r)"

fun is_pkg_change :: "item \<Rightarrow> bool" where
  "is_pkg_change (PkgChange p) = True"
| "is_pkg_change (Commit c) = False"

text \<open>The commits among the yielded items.\<close>

fun commits_of :: "item list \<Rightarrow> GitCommit list" where
  "commits_of [] = []"
| "commits_of (Commit c # xs) = c # commits_of xs"
| "commits_of (PkgChange p # xs) = commits_of xs"

section \<open>Well-formed logs\<close>

text \<open>A line of text with its newline.\<close>

definition ln :: "string \<Rightarrow> string" where
  "ln s = s @ [NL]"

text \<open>
  What git prints for one commit under the format of \<^verbatim>\<open>parse_git_log\<close>: after the begin
  sentinel the hash, the date, the author and the committer, a line each; the lines of
  the message body; the end-message sentinel; and the lines of the file-status section
  (a blank line and the name-status lines).
\<close>

record log_block =
  block_hash :: string
  block_date :: string
  block_author :: string
  block_committer :: string
  block_body :: "string list"
  block_changes :: "string list"

definition block_tail :: "log_block \<Rightarrow> string" where
  "block_tail b =
     ln (block_hash b) @ ln (block_date b) @ ln (block_author b) @ ln (block_committer b) @
     concat (map ln (block_body b)) @ ln ''# END MESSAGE BODY'' @
     concat (map ln (block_changes b))"

definition block_text :: "log_block \<Rightarrow> string" where
  "block_text b = ln ''# BEGIN COMMIT'' @ block_tail b"

text \<open>
  The block is well formed: no field and no line holds a newline, no line of the body is
  the end-message sentinel, no line of the file-status section is the begin sentinel,
  and the body has a line (the format puts \<^verbatim>\<open>%B\<close> and a newline before the end-message
  sentinel, so even an empty message gives one empty line).
\<close>

definition well_formed_block :: "log_block \<Rightarrow> bool" where
  "well_formed_block b \<longleftrightarrow>
     NL \<notin> set (block_hash b) \<and> NL \<notin> set (block_date b) \<and>
     NL \<notin> set (block_author b) \<and> NL \<notin> set (block_committer b) \<and>
     block_body b \<noteq> [] \<and>
     list_all (\<lambda>l. NL \<notin> set l \<and> l \<noteq> ''# END MESSAGE BODY'') (block_body b) \<and>
     list_all (\<lambda>l. NL \<notin> set l \<and> l \<noteq> ''# BEGIN COMMIT'') (block_changes b)"

text \<open>The lines of the body without one trailing empty line.\<close>

definition trimmed_body :: "log_block \<Rightarrow> string list" where
  "trimmed_body b = (if last (block_body b) = [] then butlast (block_body b) else block_body b)"

text \<open>The commit that the block describes, and the items expected for it: the commit
  unless package changes are asked for, then what the classifier yields for each line of
  the file-status section.\<close>

definition block_commit :: "log_block \<Rightarrow> GitCommit" where
  "block_commit b =
     \<lparr>hash = strip (ln (block_hash b)), commit_date = strip (ln (block_date b)),
      author = strip (ln (block_author b)), committer = strip (ln (block_committer b)),
      message = trimmed_body b\<rparr>"

definition block_items :: "(string \<Rightarrow> atom option) \<Rightarrow> bool \<Rightarrow> bool \<Rightarrow> log_block \<Rightarrow> item list" where
  "block_items atom_cls pkgs local b =
     (if \<not> pkgs then [Commit (block_commit b)] else []) @
     concat (map (\<lambda>l. file_change atom_cls pkgs local (block_commit b) (strip (ln l)))
                 (block_changes b))"

section \<open>Observations of the cache data\<close>

text \<open>\<^verbatim>\<open>c in data\<close> and \<^verbatim>\<open>p in data[c]\<close>.\<close>

definition has_cat :: "cache_data \<Rightarrow> string \<Rightarrow> bool" where
  "has_cat d c \<longleftrightarrow> map_of d c \<noteq> None"

definition has_pkg :: "cache_data \<Rightarrow> string \<Rightarrow> string \<Rightarrow> bool" where
  "has_pkg d c p \<longleftrightarrow> (case map_of d c of None \<Rightarrow> False | Some pd \<Rightarrow> map_of pd p \<noteq> None)"

text \<open>The tuples filed under a category, package and status; none where a key is
  missing.\<close>

definition entries :: "cache_data \<Rightarrow> string \<Rightarrow> string \<Rightarrow> string \<Rightarrow> commit_tuple list" where
  "entries d c p st = (case lookup d c p st of None \<Rightarrow> [] | Some l \<Rightarrow> l)"

text \<open>
  Equality of two nested dictionaries in Python does not look at the order of their
  keys: they have the same categories, the same packages in each, the same statuses in
  each and equal lists.
\<close>

definition same_mapping :: "cache_data \<Rightarrow> cache_data \<Rightarrow> bool" where
  "same_mapping d1 d2 \<longleftrightarrow>
     (\<forall>c. has_cat d1 c = has_cat d2 c) \<and>
     (\<forall>c p. has_pkg d1 c p = has_pkg d2 c p) \<and>
     (\<forall>c p st. lookup d1 c p st = lookup d2 c p st)"

text \<open>The same, up to the order of the tuples within each list.\<close>

definition same_up_to_order :: "cache_data \<Rightarrow> cache_data \<Rightarrow> bool" where
  "same_up_to_order d1 d2 \<longleftrightarrow>
     (\<forall>c. has_cat d1 c = has_cat d2 c) \<and>
     (\<forall>c p. has_pkg d1 c p = has_pkg d2 c p) \<and>
     (\<forall>c p st. map_option mset (lookup d1 c p st) = map_option mset (lookup d2 c p st))"

text \<open>The first component of a recorded tuple.\<close>

fun tuple_fullver :: "commit_tuple \<Rightarrow> string" where
  "tuple_fullver (Tuple3 v dt h) = v"
| "tuple_fullver (Tuple4 v dt cm kw) = v"

text \<open>The key under which \<^verbatim>\<open>update\<close> remembers a package change in \<^verbatim>\<open>seen\<close>.\<close>

definition seen_key :: "GitPkgChange \<Rightarrow> atom \<times> string" where
  "seen_key e = (atom e, status e)"

text \<open>The package changes of a stream that a loop starting from \<open>seen\<close> records: the
  first of each key that is not in \<open>seen\<close>.\<close>

fun first_seen :: "(atom \<times> string) set \<Rightarrow> GitPkgChange list \<Rightarrow> GitPkgChange list" where
  "first_seen seen [] = []"
| "first_seen seen (e # es) =
     (if seen_key e \<in> seen then first_seen seen es
      else e # first_seen (insert (seen_key e) seen) es)"

text \<open>Recording every package change of a list, in order.\<close>

definition record_all :: "bool \<Rightarrow> GitPkgChange list \<Rightarrow> cache_data \<Rightarrow> cache_data" where
  "record_all local es d =
     fold (\<lambda>e. record_commit (category (atom e)) (package (atom e)) (status e)
                 (commit_tuple_of local e)) es d"

definition filed_at :: "string \<Rightarrow> string \<Rightarrow> string \<Rightarrow> GitPkgChange \<Rightarrow> bool" where
  "filed_at c p st e \<longleftrightarrow> category (atom e) = c \<and> package (atom e) = p \<and> status e = st"

section \<open>The history views\<close>

text \<open>
  \<^verbatim>\<open>class _GitCommitPkg\<close>: category, package, status, version, date and commit of a
  pseudo-package, and the extra attributes when the tuple carries them. The commit is a
  hash in the persisted data and a commit object in the data of the local commits.
\<close>

datatype commit_ref = CommitHash string | CommitObject GitCommit

datatype GitCommitPkg =
  GitCommitPkg string string string string string commit_ref "(string \<times> atom) list option"

text \<open>\<^verbatim>\<open>raw_pkg_cls(cp[0], cp[1], status, *commit)\<close>.\<close>

fun raw_pkg_cls :: "string \<Rightarrow> string \<Rightarrow> string \<Rightarrow> commit_tuple \<Rightarrow> GitCommitPkg" where
  "raw_pkg_cls c p st (Tuple3 v dt h) = GitCommitPkg c p st v dt (CommitHash h) None"
| "raw_pkg_cls c p st (Tuple4 v dt cm kw) = GitCommitPkg c p st v dt (CommitObject cm) (Some kw)"

fun pkg_version :: "GitCommitPkg \<Rightarrow> string" where
  "pkg_version (GitCommitPkg c p st v dt cm kw) = v"

fun pkg_status :: "GitCommitPkg \<Rightarrow> string" where
  "pkg_status (GitCommitPkg c p st v dt cm kw) = st"

text \<open>The status filters of the four views.\<close>

definition GitChangedRepo_status_filter :: "string set" where
  "GitChangedRepo_status_filter = {''A'', ''R'', ''M'', ''D''}"

definition GitModifiedRepo_status_filter :: "string set" where
  "GitModifiedRepo_status_filter = {''A'', ''R'', ''M''}"

definition GitAddedRepo_status_filter :: "string set" where
  "GitAddedRepo_status_filter = {''A'', ''R''}"

definition GitRemovedRepo_status_filter :: "string set" where
  "GitRemovedRepo_status_filter = {''D''}"

text \<open>\<^verbatim>\<open>GitChangedRepo._get_versions\<close>, for a view with the given status filter; a missing
  category or package is a \<^verbatim>\<open>KeyError\<close>.\<close>

definition get_versions :: "string set \<Rightarrow> cache_data \<Rightarrow> string \<times> string
    \<Rightarrow> (string \<times> commit_tuple list) list outcome" where
  "get_versions status_filter cpv_dict cp =
     (case map_of cpv_dict (fst cp) of
        None \<Rightarrow> Raises KeyError
      | Some pd \<Rightarrow>
          (case map_of pd (snd cp) of
             None \<Rightarrow> Raises KeyError
           | Some sd \<Rightarrow> Returns (filter (\<lambda>(st, dat). st \<in> status_filter) sd)))"

text \<open>\<^verbatim>\<open>self.versions.get(cp, ())\<close>: the versions of a category and package of the tree,
  nothing for any other.\<close>

definition versions_get :: "string set \<Rightarrow> cache_data \<Rightarrow> string \<times> string
    \<Rightarrow> (string \<times> commit_tuple list) list" where
  "versions_get status_filter cpv_dict cp =
     (case get_versions status_filter cpv_dict cp of Returns vs \<Rightarrow> vs | _ \<Rightarrow> [])"

text \<open>
  \<^verbatim>\<open>GitChangedRepo._internal_gen_candidates\<close>. The caller's \<^verbatim>\<open>sorter\<close> is applied to the
  candidates and to the packages of each.
\<close>

definition internal_gen_candidates :: "string set \<Rightarrow> cache_data
    \<Rightarrow> ((string \<times> string) list \<Rightarrow> (string \<times> string) list)
    \<Rightarrow> (GitCommitPkg list \<Rightarrow> GitCommitPkg list)
    \<Rightarrow> (string \<times> string) list \<Rightarrow> GitCommitPkg list" where
  "internal_gen_candidates status_filter cpv_dict sorter_cp sorter_pkg candidates =
     concat (map (\<lambda>cp. sorter_pkg
                    (concat (map (\<lambda>(st, dat). map (raw_pkg_cls (fst cp) (snd cp) st) dat)
                                 (versions_get status_filter cpv_dict cp))))
                 (sorter_cp candidates))"

text \<open>
  The notion of the specification that the code has no counterpart of: the status most
  recently recorded for a version. The cache keeps a commit date with every tuple and
  nothing else that orders tuples of different statuses, so the status \<open>st\<close> is the most
  recent one of version \<open>v\<close> when a tuple of \<open>v\<close> under \<open>st\<close> has a date that no tuple of \<open>v\<close>
  under any status exceeds. Dates are \<^verbatim>\<open>YYYY-MM-DD\<close> and compare as strings.
\<close>

fun str_le :: "string \<Rightarrow> string \<Rightarrow> bool" where
  "str_le [] ys = True"
| "str_le (x # xs) [] = False"
| "str_le (x # xs) (y # ys) = ((of_char x :: nat) < of_char y \<or> (x = y \<and> str_le xs ys))"

fun tuple_date :: "commit_tuple \<Rightarrow> string" where
  "tuple_date (Tuple3 v dt h) = dt"
| "tuple_date (Tuple4 v dt cm kw) = dt"

definition recorded_dates :: "cache_data \<Rightarrow> string \<Rightarrow> string \<Rightarrow> string \<Rightarrow> (string \<times> string) list" where
  "recorded_dates d c p v =
     concat (map (\<lambda>(st, dat). map (\<lambda>t. (st, tuple_date t)) (filter (\<lambda>t. tuple_fullver t = v) dat))
                 (versions_get UNIV d (c, p)))"

definition spec_most_recent_status :: "cache_data \<Rightarrow> string \<Rightarrow> string \<Rightarrow> string \<Rightarrow> string \<Rightarrow> bool" where
  "spec_most_recent_status d c p v st \<longleftrightarrow>
     list_ex (\<lambda>(st', dt). st' = st \<and> list_all (\<lambda>(st'', dt'). str_le dt' dt) (recorded_dates d c p v))
             (recorded_dates d c p v)"

section \<open>The persisted cache\<close>

text \<open>
  \<^verbatim>\<open>class GitCache\<close>: the data, the schema version it was written under and the commit
  it was merged up to (the attributes \<^verbatim>\<open>data\<close>, \<^verbatim>\<open>version\<close> and \<^verbatim>\<open>commit\<close>).
\<close>

record GitCache =
  gc_data :: cache_data
  gc_version :: int
  gc_commit :: string

text \<open>\<^verbatim>\<open>GitAddon.cache = caches.CacheData(type='git', file='git.pickle', version=4)\<close>.\<close>

definition GitAddon_cache_version :: int where
  "GitAddon_cache_version = 4"

text \<open>The cache file of a repository: absent, present but not loadable, or the pickle
  of a cache.\<close>

datatype cache_file = Missing | Unloadable | Pickled GitCache

text \<open>What \<^verbatim>\<open>update_cache\<close> does to the cache file.\<close>

datatype file_op = Remove | Dump GitCache

text \<open>
  The loading of the cache (lines 464 to 482): the cache loaded, if any, the file
  afterwards and what was done to it. \<^verbatim>\<open>os.remove\<close> is taken to succeed, and no
  \<^verbatim>\<open>IGNORED_EXCEPTIONS\<close> to arrive.
\<close>

definition load_cache :: "bool \<Rightarrow> cache_file \<Rightarrow> GitCache option \<times> cache_file \<times> file_op list" where
  "load_cache force f =
     (if \<not> force then
        (case f of
           Missing \<Rightarrow> (None, Missing, [])
         | Unloadable \<Rightarrow> (None, Missing, [Remove])
         | Pickled git_cache \<Rightarrow>
             if gc_version git_cache \<noteq> GitAddon_cache_version then (None, Missing, [Remove])
             else (Some git_cache, f, []))
      else (None, f, []))"

text \<open>
  How the body of the loop of \<^verbatim>\<open>update_cache\<close> ends for one repository: the repository
  is skipped; the cache is put into \<^verbatim>\<open>_cached_repos\<close>; it is put there and the dump then
  raises \<^verbatim>\<open>UserException\<close>; the update raises; or the update never returns.
\<close>

datatype repo_outcome =
    Skipped
  | Cached GitCache
  | CachedUserException GitCache
  | UpdateRaised py_error
  | NeverReturns

text \<open>
  The body of the loop of \<^verbatim>\<open>GitAddon.update_cache\<close> for one repository (lines 456 to
  508). \<open>rev_parse\<close> is the hash of \<^verbatim>\<open>origin/HEAD\<close>, \<open>None\<close> when \<^verbatim>\<open>_get_commit_hash\<close> raises
  \<^verbatim>\<open>GitError\<close>; \<open>dump_fails\<close> says that writing the file raises \<^verbatim>\<open>IOError\<close>. The result is
  what was done to the cache file, the file afterwards, and the outcome.
\<close>

definition update_cache_repo :: "(string \<Rightarrow> git_process) \<Rightarrow> (string \<Rightarrow> atom option) \<Rightarrow> string option
    \<Rightarrow> bool \<Rightarrow> bool \<Rightarrow> cache_file \<Rightarrow> file_op list \<times> cache_file \<times> repo_outcome" where
  "update_cache_repo git_log atom_cls rev_parse dump_fails force f =
     (case rev_parse of
        None \<Rightarrow> ([], f, Skipped)
      | Some cm \<Rightarrow>
          (case load_cache force f of (git_cache, f1, ops) \<Rightarrow>
             if git_cache = None \<or> Some cm \<noteq> map_option gc_commit git_cache then
               (let (d, commit_range) =
                      (case git_cache of
                         None \<Rightarrow> ([], ''origin/HEAD'')
                       | Some gc \<Rightarrow> (gc_data gc, gc_commit gc @ ''..origin/HEAD''))
                in case update git_log atom_cls commit_range (Some d) False of
                     Raises e \<Rightarrow> (ops, f1, UpdateRaised e)
                   | Diverges \<Rightarrow> (ops, f1, NeverReturns)
                   | Returns d' \<Rightarrow>
                       (let new_cache = \<lparr>gc_data = d', gc_version = GitAddon_cache_version,
                                          gc_commit = cm\<rparr>
                        in if dump_fails then (ops, f1, CachedUserException new_cache)
                           else (ops @ [Dump new_cache], Pickled new_cache, Cached new_cache)))
             else (case git_cache of
                     Some gc \<Rightarrow> (ops, f1, Cached gc)
                   | None \<Rightarrow> (ops, f1, Skipped))))"

section \<open>The working-tree guard\<close>

text \<open>
  The git commands that \<^verbatim>\<open>GitStash\<close> runs, and the repository as it answers them: exit
  status and output of \<^verbatim>\<open>git ls-files -mo --exclude-standard\<close>, and for \<^verbatim>\<open>git stash push\<close>
  and \<^verbatim>\<open>git stash pop\<close> either success (\<open>None\<close>) or the standard error of the failed
  command (\<^verbatim>\<open>CalledProcessError\<close>).
\<close>

datatype git_cmd = LsFiles | StashPush | StashPop

record stash_env =
  ls_files_returncode :: int
  ls_files_stdout :: string
  stash_push_stderr :: "string option"
  stash_pop_stderr :: "string option"

text \<open>How a method of the guard ends: it returns, \<^verbatim>\<open>parser.error\<close> ends the program with
  a message, or \<^verbatim>\<open>splitlines()[0]\<close> raises on an empty standard error.\<close>

datatype guard_end = Returned | ParserError string | GuardRaised py_error

text \<open>The line boundaries of \<^verbatim>\<open>str.splitlines\<close> among the first 256 code points.\<close>

definition is_line_boundary :: "char \<Rightarrow> bool" where
  "is_line_boundary c \<longleftrightarrow> c \<in> {CHR 0x0A, CHR 0x0B, CHR 0x0C, CHR 0x0D, CHR 0x1C, CHR 0x1D,
                                CHR 0x1E, CHR 0x85}"

text \<open>\<^verbatim>\<open>s.splitlines()\<close>; \<open>cur\<close> is the line being read.\<close>

fun splitlines_from :: "string \<Rightarrow> string \<Rightarrow> string list" where
  "splitlines_from cur [] = (if cur = [] then [] else [cur])"
| "splitlines_from cur [c] = (if is_line_boundary c then [cur] else [cur @ [c]])"
| "splitlines_from cur (c # c' # cs) =
     (if c = CHR 0x0D \<and> c' = CHR 0x0A then cur # splitlines_from [] cs
      else if is_line_boundary c then cur # splitlines_from [] (c' # cs)
      else splitlines_from (cur @ [c]) (c' # cs))"

definition splitlines :: "string \<Rightarrow> string list" where
  "splitlines s = splitlines_from [] s"

text \<open>\<^verbatim>\<open>parser.error(f'{prefix}{e.stderr.splitlines()[0]}')\<close>.\<close>

definition error_first_line :: "string \<Rightarrow> string \<Rightarrow> guard_end" where
  "error_first_line prefix err =
     (case splitlines err of [] \<Rightarrow> GuardRaised IndexError | l # ls \<Rightarrow> ParserError (prefix @ l))"

text \<open>\<^verbatim>\<open>GitStash.__enter__\<close>: the commands run, the value of \<^verbatim>\<open>_stashed\<close> afterwards (it is
  \<^verbatim>\<open>False\<close> after \<^verbatim>\<open>__init__\<close>), and how the method ends.\<close>

definition GitStash_enter :: "stash_env \<Rightarrow> git_cmd list \<times> bool \<times> guard_end" where
  "GitStash_enter env =
     (if ls_files_returncode env \<noteq> 0 \<or> ls_files_stdout env = [] then ([LsFiles], False, Returned)
      else (case stash_push_stderr env of
              Some err \<Rightarrow>
                ([LsFiles, StashPush], False, error_first_line ''git failed stashing files: '' err)
            | None \<Rightarrow> ([LsFiles, StashPush], True, Returned)))"

text \<open>\<^verbatim>\<open>GitStash.__exit__\<close>, from the value of \<^verbatim>\<open>_stashed\<close>. The method ignores its three
  arguments, and the \<^verbatim>\<open>None\<close> it returns lets an exception of the block pass.\<close>

definition GitStash_exit :: "stash_env \<Rightarrow> bool \<Rightarrow> git_cmd list \<times> guard_end" where
  "GitStash_exit env stashed =
     (if stashed then
        (case stash_pop_stderr env of
           Some err \<Rightarrow> ([StashPop], error_first_line ''git failed applying stash: '' err)
         | None \<Rightarrow> ([StashPop], Returned))
      else ([], Returned))"





section \<open>The scan-scope resolver\<close>

text \<open>
  The attributes of the argparse namespace that \<^verbatim>\<open>_ScanCommits.__call__\<close> reads and
  writes; \<open>commits\<close> is the attribute named by \<^verbatim>\<open>self.dest\<close>.
\<close>

datatype scope = package_scope | eclass_scope

datatype restriction = OrRestriction "atom list" | EclassMatch "string set"

datatype scan_context = GitStash_context

record namespace =
  targets :: "string list"
  forced_checks :: "string list"
  commits :: string
  contexts :: "scan_context list"
  restrictions :: "(scope \<times> restriction) list"

text \<open>The result of \<^verbatim>\<open>subprocess.run\<close> on the diff command: git is not installed, the
  command failed with some standard error, or it completed with some standard output.\<close>

datatype diff_result = GitNotFound | DiffFailed string | DiffCompleted string

text \<open>
  What the call reads from outside: the names of the git checks among
  \<^verbatim>\<open>objects.CHECKS\<close>, the category directories of the target repository, whether it has
  an \<^verbatim>\<open>eclass\<close> directory, the diff command as a function of the reference and the
  targets, and the order of the package library on atoms.
\<close>

record scan_env =
  git_checks :: "string list"
  category_dirs :: "string list"
  eclass_dir :: bool
  git_diff :: "string \<Rightarrow> string list \<Rightarrow> diff_result"
  sorted_atoms :: "atom list \<Rightarrow> atom list"

text \<open>How the call ends: it returns with the namespace, \<^verbatim>\<open>parser.error\<close> ends the program
  with a usage error, \<^verbatim>\<open>parser.exit()\<close> ends it with status 0, or an exception leaves
  it.\<close>

datatype call_end =
    CallReturns namespace
  | CallParserError string
  | CallParserExit
  | CallRaised py_error

text \<open>\<^verbatim>\<open>' '.join(xs)\<close>.\<close>

fun join_space :: "string list \<Rightarrow> string" where
  "join_space [] = []"
| "join_space [x] = x"
| "join_space (x # xs) = x @ '' '' @ join_space xs"

text \<open>\<^verbatim>\<open>os.sep.join(x.split(os.sep, 2)[:2])\<close>: the path up to its second separator.\<close>

definition first_two_segments :: "string \<Rightarrow> string" where
  "first_two_segments x =
     (case dropWhile not_slash x of
        [] \<Rightarrow> takeWhile not_slash x
      | c # r \<Rightarrow> takeWhile not_slash x @ ''/'' @ takeWhile not_slash r)"

text \<open>\<^verbatim>\<open>_ScanCommits._pkg_atoms\<close>.\<close>

fun pkg_atoms :: "(string \<Rightarrow> atom option) \<Rightarrow> string list \<Rightarrow> atom list" where
  "pkg_atoms atom_cls [] = []"
| "pkg_atoms atom_cls (x # paths) =
     (case atom_cls (first_two_segments x) of
        None \<Rightarrow> pkg_atoms atom_cls paths
      | Some a \<Rightarrow> a # pkg_atoms atom_cls paths)"

text \<open>\<^verbatim>\<open>^eclass/(?P<eclass>\S+)\.eclass$\<close>, the named group numbered 1.\<close>

definition eclass_regex :: regex where
  "eclass_regex =
     seqs [Bol, Lit ''eclass/'', Group 1 (Plus (\<lambda>c. \<not> isspace c)), Lit ''.eclass'', Eol]"

fun eclass_names :: "string list \<Rightarrow> string list" where
  "eclass_names [] = []"
| "eclass_names (x # xs) =
     (case re_match eclass_regex x of
        None \<Rightarrow> eclass_names xs
      | Some g \<Rightarrow> fstr (g 1) # eclass_names xs)"

text \<open>
  \<^verbatim>\<open>_ScanCommits.__call__\<close>, on the namespace and the value of the option. \<^verbatim>\<open>sorted\<close> on
  strings is \<^const>\<open>sort\<close> in the lexicographic order of the code points; \<^verbatim>\<open>partition\<close>
  gives the paths that fail the predicate first, those that satisfy it second.
\<close>

definition ScanCommits_call :: "scan_env \<Rightarrow> (string \<Rightarrow> atom option) \<Rightarrow> namespace \<Rightarrow> string option
    \<Rightarrow> call_end" where
  "ScanCommits_call env atom_cls ns val =
     (if targets ns \<noteq> [] then
        CallParserError (''--commits is mutually exclusive with target'' @
                         (if length (targets ns) = 1 then '''' else ''s'') @ '': '' @
                         join_space (targets ns))
      else
        (let ref = (case val of Some v \<Rightarrow> v | None \<Rightarrow> ''origin'');
             ns' = ns\<lparr>forced_checks := forced_checks ns @ git_checks env, commits := ref\<rparr>;
             tgts = sort (category_dirs env) @ (if eclass_dir env then [''eclass''] else [])
         in case git_diff env ref tgts of
              GitNotFound \<Rightarrow>
                CallParserError ''git not available to determine targets for --commits''
            | DiffFailed err \<Rightarrow>
                (case splitlines err of
                   [] \<Rightarrow> CallRaised IndexError
                 | l # ls \<Rightarrow> CallParserError (''failed running git: '' @ l))
            | DiffCompleted out \<Rightarrow>
                if out = [] then CallParserExit
                else
                  (let paths = splitlines out;
                       pkgs = sorted_atoms env
                                (pkg_atoms atom_cls (filter (\<lambda>x. take 7 x \<noteq> ''eclass/'') paths));
                       eclasses = sort (eclass_names (filter (\<lambda>x. take 7 x = ''eclass/'') paths));
                       rs = (if pkgs \<noteq> [] then [(package_scope, OrRestriction pkgs)] else []) @
                            (if eclasses \<noteq> []
                             then [(eclass_scope, EclassMatch (set eclasses))] else [])
                   in if rs = [] then CallParserExit
                      else CallReturns (ns'\<lparr>contexts := contexts ns' @ [GitStash_context],
                                           restrictions := rs\<rparr>))))"

section \<open>Sample inputs\<close>

text \<open>
  A small repository for the concrete instances: a finite part of the library's atom
  parser, and the output of \<^verbatim>\<open>git log\<close> for some commit ranges. \<^verbatim>\<open>git log\<close> lists the
  newest commit first, so the output for \<^verbatim>\<open>A..C\<close> is the output for \<^verbatim>\<open>B..C\<close> followed by
  the output for \<^verbatim>\<open>A..B\<close>.
\<close>

definition sample_atom_cls :: "string \<Rightarrow> atom option" where
  "sample_atom_cls s =
     (if s = ''=cat/pkg-1'' then Some \<lparr>category = ''cat'', package = ''pkg'', fullver = ''1''\<rparr>
      else if s = ''=cat/pkg-2'' then Some \<lparr>category = ''cat'', package = ''pkg'', fullver = ''2''\<rparr>
      else if s = ''=cat/old-1'' then Some \<lparr>category = ''cat'', package = ''old'', fullver = ''1''\<rparr>
      else if s = ''=cat/new-1'' then Some \<lparr>category = ''cat'', package = ''new'', fullver = ''1''\<rparr>
      else None)"

definition sample_commit :: "string \<Rightarrow> string \<Rightarrow> string list \<Rightarrow> string" where
  "sample_commit h dt changes =
     concat (map ln ([''# BEGIN COMMIT'', h, dt, ''A U Thor <author@example.org>'',
                      ''C O Mitter <committer@example.org>'', ''subject'', '''',
                      ''# END MESSAGE BODY'', ''''] @ changes))"

definition sample_GitCommit :: "string \<Rightarrow> string \<Rightarrow> GitCommit" where
  "sample_GitCommit h dt =
     \<lparr>hash = h, commit_date = dt, author = ''A U Thor <author@example.org>'',
      committer = ''C O Mitter <committer@example.org>'', message = [''subject'']\<rparr>"

definition atom_pkg_1 :: atom where
  "atom_pkg_1 = \<lparr>category = ''cat'', package = ''pkg'', fullver = ''1''\<rparr>"

definition atom_pkg_2 :: atom where
  "atom_pkg_2 = \<lparr>category = ''cat'', package = ''pkg'', fullver = ''2''\<rparr>"

definition atom_old_1 :: atom where
  "atom_old_1 = \<lparr>category = ''cat'', package = ''old'', fullver = ''1''\<rparr>"

definition atom_new_1 :: atom where
  "atom_new_1 = \<lparr>category = ''cat'', package = ''new'', fullver = ''1''\<rparr>"

definition sample_change :: "atom \<Rightarrow> string \<Rightarrow> GitCommit \<Rightarrow> GitPkgChange" where
  "sample_change a st cm = \<lparr>atom = a, status = st, commit = cm, data = []\<rparr>"

definition log_AB :: string where
  "log_AB = sample_commit ''aaa1111'' ''2020-01-01'' [''A'' @ [TAB] @ ''cat/pkg/pkg-1.ebuild'']"

definition log_BC :: string where
  "log_BC = sample_commit ''bbb2222'' ''2020-02-01'' [''A'' @ [TAB] @ ''cat/pkg/pkg-2.ebuild'']"

definition log_CD :: string where
  "log_CD =
     sample_commit ''ddd4444'' ''2020-04-01'' [''M'' @ [TAB] @ ''cat/pkg/pkg-2.ebuild''] @
     sample_commit ''ccc3333'' ''2020-03-01'' [''M'' @ [TAB] @ ''cat/pkg/pkg-2.ebuild'']"

definition log_DE :: string where
  "log_DE =
     sample_commit ''fff6666'' ''2020-06-01'' [''A'' @ [TAB] @ ''cat/pkg/pkg-1.ebuild''] @
     sample_commit ''eee5555'' ''2020-05-01'' [''D'' @ [TAB] @ ''cat/pkg/pkg-1.ebuild'']"

text \<open>The rename line of the range \<^verbatim>\<open>E..F\<close>: git prints the old path first.\<close>

definition rename_line :: string where
  "rename_line = ''R100'' @ [TAB] @ ''cat/old/old-1.ebuild'' @ [TAB] @ ''cat/new/new-1.ebuild''"

definition log_EF :: string where
  "log_EF = sample_commit ''abc7777'' ''2020-07-01'' [rename_line]"

definition sample_git_log :: "string \<Rightarrow> git_process" where
  "sample_git_log commit_range =
     (if commit_range = ''A..B'' then \<lparr>stdout = log_AB, poll = None\<rparr>
      else if commit_range = ''B..C'' then \<lparr>stdout = log_BC, poll = None\<rparr>
      else if commit_range = ''A..C'' then \<lparr>stdout = log_BC @ log_AB, poll = None\<rparr>
      else if commit_range = ''C..D'' then \<lparr>stdout = log_CD, poll = None\<rparr>
      else if commit_range = ''D..E'' then \<lparr>stdout = log_DE, poll = None\<rparr>
      else if commit_range = ''E..F'' then \<lparr>stdout = log_EF, poll = None\<rparr>
      else if commit_range = ''origin/HEAD'' then \<lparr>stdout = log_BC @ log_AB, poll = None\<rparr>
      else \<lparr>stdout = [], poll = Some 128\<rparr>)"


definition broken_tree :: stash_env where
  "broken_tree = \<lparr>ls_files_returncode = 128, ls_files_stdout = [],
                   stash_push_stderr = None, stash_pop_stderr = None\<rparr>"

text \<open>A namespace without targets, and a repository whose index does not differ from
  the reference.\<close>

definition sample_namespace :: namespace where
  "sample_namespace = \<lparr>targets = [], forced_checks = [], commits = [], contexts = [],
                        restrictions = []\<rparr>"

definition unchanged_repo :: scan_env where
  "unchanged_repo = \<lparr>git_checks = [''GitCommitsCheck''], category_dirs = [''cat''],
                      eclass_dir = True, git_diff = (\<lambda>ref tgts. DiffCompleted []),
                      sorted_atoms = (\<lambda>xs. xs)\<rparr>"

text \<open>The cache data of the range \<^verbatim>\<open>D..E\<close>, in which version 1 of \<^verbatim>\<open>cat/pkg\<close> is deleted
  and then added again.\<close>

definition data_DE :: cache_data where
  "data_DE = [(''cat'', [(''pkg'', [(''A'', [Tuple3 ''1'' ''2020-06-01'' ''fff6666'']),
                                    (''D'', [Tuple3 ''1'' ''2020-05-01'' ''eee5555''])])])]"

text \<open>A log of two commits; the message of the first has a blank line in it and one at
  its end, and git has exited with status 0 when it is polled.\<close>

definition sample_blocks :: "log_block list" where
  "sample_blocks =
     [\<lparr>block_hash = ''ddd4444'', block_date = ''2020-04-01'',
       block_author = ''A U Thor <author@example.org>'',
       block_committer = ''C O Mitter <committer@example.org>'',
       block_body = [''subject'', '''', ''body'', ''''],
       block_changes = ['''', ''M'' @ [TAB] @ ''cat/pkg/pkg-2.ebuild'']\<rparr>,
      \<lparr>block_hash = ''ccc3333'', block_date = ''2020-03-01'',
       block_author = ''A U Thor <author@example.org>'',
       block_committer = ''C O Mitter <committer@example.org>'',
       block_body = [''subject'', ''''],
       block_changes = ['''', ''A'' @ [TAB] @ ''cat/pkg/pkg-2.ebuild'']\<rparr>]"

definition log_two_commits :: "string \<Rightarrow> git_process" where
  "log_two_commits commit_range =
     \<lparr>stdout = concat (map block_text sample_blocks), poll = Some 0\<rparr>"

section \<open>Properties of the log parser\<close>

lemma readline_ln: "NL \<notin> set l \<Longrightarrow> readline (ln l @ r) = (ln l, r)"
  by (induction l) (auto simp: ln_def)

lemma read_message_step:
  assumes "s \<noteq> []" and "readline s = (raw, rest)"
  shows "read_message s acc =
           (if strip_nl raw = ''# END MESSAGE BODY'' then
              (if acc = [] then Raises IndexError
               else Returns (if last acc = [] then butlast acc else acc, rest))
            else read_message rest (acc @ [strip_nl raw]))"
  using assms by (subst read_message.simps) simp

lemma strip_nl_ln: "NL \<notin> set l \<Longrightarrow> strip_nl (ln l) = l"
proof (cases l)
  case Nil
  then show ?thesis by (simp add: strip_nl_def strip_chars_def ln_def)
next
  case (Cons c cs)
  assume no: "NL \<notin> set l"
  with Cons have c: "c \<noteq> NL" by auto
  have "dropWhile (\<lambda>c. c = NL) (rev l) = rev l"
  proof (cases "rev l")
    case Nil
    then show ?thesis by simp
  next
    case (Cons x xs)
    then have "x \<in> set l" by (metis list.set_intros(1) set_rev)
    with no have "x \<noteq> NL" by auto
    with Cons show ?thesis by simp
  qed
  with Cons c show ?thesis
    by (simp add: strip_nl_def strip_chars_def ln_def)
qed

lemma read_message_lines:
  assumes "\<forall>l \<in> set lines. NL \<notin> set l \<and> l \<noteq> ''# END MESSAGE BODY''"
    and "acc @ lines \<noteq> []"
  shows "read_message (concat (map ln lines) @ ln ''# END MESSAGE BODY'' @ rest) acc =
           Returns (if last (acc @ lines) = [] then butlast (acc @ lines) else acc @ lines, rest)"
  using assms
proof (induction lines arbitrary: acc)
  case Nil
  have rl: "readline (ln ''# END MESSAGE BODY'' @ rest) = (ln ''# END MESSAGE BODY'', rest)"
    by (rule readline_ln) simp
  have st: "strip_nl (ln ''# END MESSAGE BODY'') = ''# END MESSAGE BODY''"
    by (rule strip_nl_ln) simp
  have ne: "ln ''# END MESSAGE BODY'' @ rest \<noteq> []"
    by (simp add: ln_def)
  have "read_message (ln ''# END MESSAGE BODY'' @ rest) acc =
      Returns (if last acc = [] then butlast acc else acc, rest)"
    unfolding read_message_step [OF ne rl] st using Nil.prems(2) by simp
  then show ?case by simp
next
  case (Cons l lines)
  from Cons.prems(1) have nl: "NL \<notin> set l" and ns: "l \<noteq> ''# END MESSAGE BODY''"
    and rest_ok: "\<forall>l \<in> set lines. NL \<notin> set l \<and> l \<noteq> ''# END MESSAGE BODY''"
    by auto
  let ?tail = "concat (map ln lines) @ ln ''# END MESSAGE BODY'' @ rest"
  have rl: "readline (ln l @ ?tail) = (ln l, ?tail)"
    by (rule readline_ln [OF nl])
  have st: "strip_nl (ln l) = l"
    by (rule strip_nl_ln [OF nl])
  have ne: "ln l @ ?tail \<noteq> []"
    by (simp add: ln_def)
  have step: "read_message (ln l @ ?tail) acc = read_message ?tail (acc @ [l])"
    unfolding read_message_step [OF ne rl] st using ns by simp
  have "read_message ?tail (acc @ [l]) =
      Returns (if last ((acc @ [l]) @ lines) = [] then butlast ((acc @ [l]) @ lines)
               else (acc @ [l]) @ lines, rest)"
    by (rule Cons.IH [OF rest_ok]) simp
  with step show ?case by simp
qed

text \<open>The file-change loop yields, for a line that is not the begin sentinel, what
  the classifier yields for the stripped line, and goes on.\<close>

lemma read_changes_line:
  assumes "NL \<notin> set l" and "l \<noteq> ''# BEGIN COMMIT''"
  shows "read_changes atom_cls pkgs local cm (ln l @ rest) =
           (case read_changes atom_cls pkgs local cm rest of
              (evs, l', r) \<Rightarrow> (file_change atom_cls pkgs local cm (strip (ln l)) @ evs, l', r))"
proof -
  have rl: "readline (ln l @ rest) = (ln l, rest)"
    by (rule readline_ln [OF assms(1)])
  have "ln l \<noteq> ''# BEGIN COMMIT'' @ [NL]" and "ln l \<noteq> []"
    using assms(2) by (simp_all add: ln_def)
  with rl show ?thesis
    by (subst read_changes.simps) simp
qed

lemma read_changes_eof:
  "read_changes atom_cls pkgs local cm [] = ([], [], [])"
  by (subst read_changes.simps) simp

lemma read_changes_begin:
  "read_changes atom_cls pkgs local cm (ln ''# BEGIN COMMIT'' @ rest) =
     ([], ln ''# BEGIN COMMIT'', rest)"
proof -
  have rl: "readline (ln ''# BEGIN COMMIT'' @ rest) = (ln ''# BEGIN COMMIT'', rest)"
    by (rule readline_ln) simp
  show ?thesis
    by (subst read_changes.simps) (simp add: rl, simp add: ln_def)
qed

lemma read_changes_lines:
  assumes "list_all (\<lambda>l. NL \<notin> set l \<and> l \<noteq> ''# BEGIN COMMIT'') changes"
    and "read_changes atom_cls pkgs local cm rest = ([], l', r')"
  shows "read_changes atom_cls pkgs local cm (concat (map ln changes) @ rest) =
           (concat (map (\<lambda>l. file_change atom_cls pkgs local cm (strip (ln l))) changes), l', r')"
  using assms(1)
proof (induction changes)
  case Nil
  with assms(2) show ?case by simp
next
  case (Cons l ls)
  then have nl: "NL \<notin> set l" and nb: "l \<noteq> ''# BEGIN COMMIT''"
    and rest: "list_all (\<lambda>l. NL \<notin> set l \<and> l \<noteq> ''# BEGIN COMMIT'') ls"
    by simp_all
  have "read_changes atom_cls pkgs local cm (ln l @ concat (map ln ls) @ rest) =
      (case read_changes atom_cls pkgs local cm (concat (map ln ls) @ rest) of
         (evs, l', r) \<Rightarrow> (file_change atom_cls pkgs local cm (strip (ln l)) @ evs, l', r))"
    by (rule read_changes_line [OF nl nb])
  with Cons.IH [OF rest] show ?case by simp
qed

lemma strip_begin_nonempty: "strip (ln ''# BEGIN COMMIT'') \<noteq> []"
  by code_simp

lemma ln_begin_nonempty: "ln ''# BEGIN COMMIT'' \<noteq> []"
  by (simp add: ln_def)

lemma commits_loop_unfold:
  assumes "line \<noteq> []"
    and "readline s = (l1, s1)" and "readline s1 = (l2, s2)"
    and "readline s2 = (l3, s3)" and "readline s3 = (l4, s4)"
    and "read_message s4 [] = Returns (msg, s5)"
    and "read_changes atom_cls pkgs local
           \<lparr>hash = strip l1, commit_date = strip l2, author = strip l3,
            committer = strip l4, message = msg\<rparr> s5 = (evs, line', s6)"
    and "commits_loop atom_cls pkgs local line' s6 = (later, e)"
  shows "commits_loop atom_cls pkgs local line s =
           ((if \<not> pkgs
             then [Commit \<lparr>hash = strip l1, commit_date = strip l2, author = strip l3,
                            committer = strip l4, message = msg\<rparr>]
             else []) @ evs @ later, e)"
  by (subst commits_loop.simps) (simp add: assms)

lemma commits_loop_block:
  assumes wf: "well_formed_block b" and line: "line \<noteq> []"
    and rc: "read_changes atom_cls pkgs local (block_commit b) rest = ([], l', r')"
    and cl: "commits_loop atom_cls pkgs local l' r' = (later, e)"
  shows "commits_loop atom_cls pkgs local line (block_tail b @ rest) =
           (block_items atom_cls pkgs local b @ later, e)"
proof -
  let ?chg = "concat (map ln (block_changes b)) @ rest"
  let ?body = "concat (map ln (block_body b)) @ ln ''# END MESSAGE BODY'' @ ?chg"
  let ?s4 = "?body"
  let ?s3 = "ln (block_committer b) @ ?s4"
  let ?s2 = "ln (block_author b) @ ?s3"
  let ?s1 = "ln (block_date b) @ ?s2"
  let ?s = "ln (block_hash b) @ ?s1"
  from wf have n1: "NL \<notin> set (block_hash b)" and n2: "NL \<notin> set (block_date b)"
    and n3: "NL \<notin> set (block_author b)" and n4: "NL \<notin> set (block_committer b)"
    and ne: "block_body b \<noteq> []"
    and body: "list_all (\<lambda>l. NL \<notin> set l \<and> l \<noteq> ''# END MESSAGE BODY'') (block_body b)"
    and chg: "list_all (\<lambda>l. NL \<notin> set l \<and> l \<noteq> ''# BEGIN COMMIT'') (block_changes b)"
    by (simp_all add: well_formed_block_def)
  have s: "block_tail b @ rest = ?s" by (simp add: block_tail_def)
  have r1: "readline ?s = (ln (block_hash b), ?s1)" by (rule readline_ln [OF n1])
  have r2: "readline ?s1 = (ln (block_date b), ?s2)" by (rule readline_ln [OF n2])
  have r3: "readline ?s2 = (ln (block_author b), ?s3)" by (rule readline_ln [OF n3])
  have r4: "readline ?s3 = (ln (block_committer b), ?s4)" by (rule readline_ln [OF n4])
  from body have body': "\<forall>l \<in> set (block_body b). NL \<notin> set l \<and> l \<noteq> ''# END MESSAGE BODY''"
    by (simp add: list_all_iff)
  have m: "read_message ?s4 [] =
      Returns (if last (block_body b) = [] then butlast (block_body b) else block_body b, ?chg)"
    using read_message_lines [OF body', of "[]" ?chg] ne by simp
  have c: "read_changes atom_cls pkgs local (block_commit b) ?chg =
      (concat (map (\<lambda>l. file_change atom_cls pkgs local (block_commit b) (strip (ln l)))
                   (block_changes b)), l', r')"
    by (rule read_changes_lines [OF chg rc])
  have cm: "block_commit b =
      \<lparr>hash = strip (ln (block_hash b)), commit_date = strip (ln (block_date b)),
       author = strip (ln (block_author b)), committer = strip (ln (block_committer b)),
       message = (if last (block_body b) = [] then butlast (block_body b) else block_body b)\<rparr>"
    by (simp add: block_commit_def trimmed_body_def)
  have "commits_loop atom_cls pkgs local line ?s =
      ((if \<not> pkgs then [Commit (block_commit b)] else []) @
       concat (map (\<lambda>l. file_change atom_cls pkgs local (block_commit b) (strip (ln l)))
                   (block_changes b)) @ later, e)"
    unfolding cm
    by (rule commits_loop_unfold [OF line r1 r2 r3 r4 m c [unfolded cm] cl])
  with s show ?thesis by (simp add: block_items_def)
qed

lemma commits_loop_blocks:
  assumes "list_all well_formed_block (b # bs)" and "line \<noteq> []"
  shows "commits_loop atom_cls pkgs local line (block_tail b @ concat (map block_text bs)) =
           (concat (map (block_items atom_cls pkgs local) (b # bs)), Returns ())"
  using assms
proof (induction bs arbitrary: b line)
  case Nil
  then have wf: "well_formed_block b" by simp
  have rc: "read_changes atom_cls pkgs local (block_commit b) [] = ([], [], [])"
    by (rule read_changes_eof)
  have cl: "commits_loop atom_cls pkgs local [] [] = ([], Returns ())"
    by (subst commits_loop.simps) simp
  from commits_loop_block [OF wf Nil.prems(2) rc cl] show ?case by simp
next
  case (Cons b' bs)
  then have wf: "well_formed_block b" and wfs: "list_all well_formed_block (b' # bs)"
    by simp_all
  let ?rest = "block_tail b' @ concat (map block_text bs)"
  have rc: "read_changes atom_cls pkgs local (block_commit b) (ln ''# BEGIN COMMIT'' @ ?rest) =
      ([], ln ''# BEGIN COMMIT'', ?rest)"
    by (rule read_changes_begin)
  have cl: "commits_loop atom_cls pkgs local (ln ''# BEGIN COMMIT'') ?rest =
      (concat (map (block_items atom_cls pkgs local) (b' # bs)), Returns ())"
    by (rule Cons.IH [OF wfs ln_begin_nonempty])
  have "concat (map block_text (b' # bs)) = ln ''# BEGIN COMMIT'' @ ?rest"
    by (simp add: block_text_def [of b'])
  with commits_loop_block [OF wf Cons.prems(2) rc cl] show ?case
    by simp
qed

lemma file_change_without_pkgs: "file_change atom_cls False local cm line = []"
  by (simp add: file_change_def)

lemma concat_map_Nil: "concat (map (\<lambda>l. []) xs) = []"
  by (induction xs) simp_all

lemma commits_of_block_items:
  "commits_of (concat (map (block_items atom_cls False local) blocks)) = map block_commit blocks"
  by (induction blocks) (simp_all add: block_items_def file_change_without_pkgs concat_map_Nil)

lemma parse_well_formed_log:
  assumes "list_all well_formed_block blocks"
    and "stdout (git_log commit_range) = concat (map block_text blocks)"
    and "poll (git_log commit_range) = None \<or> poll (git_log commit_range) = Some 0"
  shows "parse_git_log git_log atom_cls commit_range pkgs local =
           (concat (map (block_items atom_cls pkgs local) blocks), Returns ())"
proof (cases blocks)
  case Nil
  with assms(2,3) show ?thesis
    by (auto simp: parse_git_log_def Let_def strip_def strip_chars_def commits_loop.simps [of _ _ _ "[]"])
next
  case (Cons b bs)
  let ?s = "block_tail b @ concat (map block_text bs)"
  have out: "stdout (git_log commit_range) = ln ''# BEGIN COMMIT'' @ ?s"
    using assms(2) Cons by (simp add: block_text_def)
  have r: "readline (ln ''# BEGIN COMMIT'' @ ?s) = (ln ''# BEGIN COMMIT'', ?s)"
    by (rule readline_ln) simp
  have p: "parse_git_log git_log atom_cls commit_range pkgs local =
      commits_loop atom_cls pkgs local (strip (ln ''# BEGIN COMMIT'')) ?s"
    using assms(3) by (auto simp: parse_git_log_def out r)
  from assms(1) Cons have wf: "list_all well_formed_block (b # bs)" by simp
  from commits_loop_blocks [OF wf strip_begin_nonempty, of atom_cls pkgs local] p Cons
  show ?thesis by simp
qed

text \<open>
  C7. Let the log be the text of any number of well-formed commit blocks, one after the
  other, and let git not have failed when it is polled. Then \<^verbatim>\<open>parse_git_log\<close> ends
  normally and yields, block by block and in order, the commit of the block (unless
  package changes are asked for) and the package changes of the lines of its file-status
  section, each carrying that commit; and the message of the commit of every block is the
  list of the lines between the four metadata lines and the end-message sentinel, without
  the last line when that line is empty and as it is otherwise. In particular, without
  package changes the messages of the yielded commits are, in order, these lists.
\<close>

theorem commit_messages_of_stream:
  assumes "list_all well_formed_block blocks"
    and "stdout (git_log commit_range) = concat (map block_text blocks)"
    and "poll (git_log commit_range) = None \<or> poll (git_log commit_range) = Some 0"
  shows "parse_git_log git_log atom_cls commit_range pkgs local =
           (concat (map (block_items atom_cls pkgs local) blocks), Returns ())
         \<and> map message (map block_commit blocks) =
             map (\<lambda>b. if last (block_body b) = [] then butlast (block_body b) else block_body b)
                 blocks
         \<and> map message (commits_of (fst (parse_git_log git_log atom_cls commit_range False local))) =
             map (\<lambda>b. if last (block_body b) = [] then butlast (block_body b) else block_body b)
                 blocks"
proof -
  have m: "map message (map block_commit blocks) =
      map (\<lambda>b. if last (block_body b) = [] then butlast (block_body b) else block_body b) blocks"
    by (simp add: block_commit_def trimmed_body_def)
  have "commits_of (fst (parse_git_log git_log atom_cls commit_range False local)) =
      map block_commit blocks"
    by (simp add: parse_well_formed_log [where git_log = git_log and commit_range = commit_range,
          OF assms] commits_of_block_items)
  with m parse_well_formed_log [where git_log = git_log and commit_range = commit_range
      and atom_cls = atom_cls and pkgs = pkgs and local = local, OF assms]
  show ?thesis by simp
qed

theorem commit_messages_of_stream_witness:
  "list_all well_formed_block sample_blocks
   \<and> stdout (log_two_commits ''C..D'') = concat (map block_text sample_blocks)
   \<and> poll (log_two_commits ''C..D'') = Some 0
   \<and> parse_git_log log_two_commits sample_atom_cls ''C..D'' False False =
       ([Commit \<lparr>hash = ''ddd4444'', commit_date = ''2020-04-01'',
                 author = ''A U Thor <author@example.org>'',
                 committer = ''C O Mitter <committer@example.org>'',
                 message = [''subject'', '''', ''body'']\<rparr>,
         Commit \<lparr>hash = ''ccc3333'', commit_date = ''2020-03-01'',
                 author = ''A U Thor <author@example.org>'',
                 committer = ''C O Mitter <committer@example.org>'',
                 message = [''subject'']\<rparr>], Returns ())
   \<and> parse_git_log log_two_commits sample_atom_cls ''C..D'' False False =
       (concat (map (block_items sample_atom_cls False False) sample_blocks), Returns ())
   \<and> map message (commits_of (fst (parse_git_log log_two_commits sample_atom_cls ''C..D'' False False))) =
       [[''subject'', '''', ''body''], [''subject'']]"
proof -
  have wf: "list_all well_formed_block sample_blocks"
    by (simp add: sample_blocks_def well_formed_block_def)
  have out: "stdout (log_two_commits ''C..D'') = concat (map block_text sample_blocks)"
    by (simp add: log_two_commits_def)
  have poll: "poll (log_two_commits ''C..D'') = Some 0"
    by (simp add: log_two_commits_def)
  have poll': "poll (log_two_commits ''C..D'') = None \<or> poll (log_two_commits ''C..D'') = Some 0"
    using poll by simp
  have v: "parse_git_log log_two_commits sample_atom_cls ''C..D'' False False =
       ([Commit \<lparr>hash = ''ddd4444'', commit_date = ''2020-04-01'',
                 author = ''A U Thor <author@example.org>'',
                 committer = ''C O Mitter <committer@example.org>'',
                 message = [''subject'', '''', ''body'']\<rparr>,
         Commit \<lparr>hash = ''ccc3333'', commit_date = ''2020-03-01'',
                 author = ''A U Thor <author@example.org>'',
                 committer = ''C O Mitter <committer@example.org>'',
                 message = [''subject'']\<rparr>], Returns ())"
    by code_simp
  have b: "map (\<lambda>b. if last (block_body b) = [] then butlast (block_body b) else block_body b)
      sample_blocks = [[''subject'', '''', ''body''], [''subject'']]"
    by (simp add: sample_blocks_def)
  note t = commit_messages_of_stream [where git_log = log_two_commits and commit_range = "''C..D''"
      and atom_cls = sample_atom_cls and pkgs = False and local = False, OF wf out poll']
  from t have c1: "parse_git_log log_two_commits sample_atom_cls ''C..D'' False False =
       (concat (map (block_items sample_atom_cls False False) sample_blocks), Returns ())"
    by (rule conjunct1)
  from t have c3: "map message (commits_of (fst (parse_git_log log_two_commits sample_atom_cls
         ''C..D'' False False))) =
       map (\<lambda>b. if last (block_body b) = [] then butlast (block_body b) else block_body b)
         sample_blocks"
    by (rule conjunct2 [THEN conjunct2])
  have c3': "map message (commits_of (fst (parse_git_log log_two_commits sample_atom_cls
         ''C..D'' False False))) = [[''subject'', '''', ''body''], [''subject'']]"
    by (simp only: c3 b)
  from wf out poll v c1 c3' show ?thesis by blast
qed

lemma message_without_lines_raises:
  "read_message (ln ''# END MESSAGE BODY'' @ rest) [] = Raises IndexError"
proof -
  have rl: "readline (ln ''# END MESSAGE BODY'' @ rest) = (ln ''# END MESSAGE BODY'', rest)"
    by (rule readline_ln) simp
  have st: "strip_nl (ln ''# END MESSAGE BODY'') = ''# END MESSAGE BODY''"
    by (rule strip_nl_ln) simp
  have ne: "ln ''# END MESSAGE BODY'' @ rest \<noteq> []"
    by (simp add: ln_def)
  show ?thesis
    unfolding read_message_step [OF ne rl] st by simp
qed

text \<open>With \<^verbatim>\<open>pkgs=True\<close> the generator yields package changes only.\<close>

lemma file_change_only_changes:
  "list_all is_pkg_change (file_change atom_cls pkgs local cm line)"
  by (simp add: file_change_def split: option.splits)

lemma read_changes_only_changes:
  "read_changes atom_cls pkgs local cm s = (evs, l, r) \<Longrightarrow> list_all is_pkg_change evs"
proof (induction atom_cls pkgs local cm s arbitrary: evs l r rule: read_changes.induct)
  case (1 atom_cls pkgs local cm s)
  note eq = "1.prems" [unfolded read_changes.simps [of atom_cls pkgs local cm s]]
  obtain line rest where rl: "readline s = (line, rest)" by (cases "readline s")
  show ?case
  proof (cases "line = ''# BEGIN COMMIT'' @ [NL] \<or> line = []")
    case True
    with eq rl have "evs = []" by auto
    then show ?thesis by simp
  next
    case False
    obtain evs' l' r' where rc: "read_changes atom_cls pkgs local cm rest = (evs', l', r')"
      by (cases "read_changes atom_cls pkgs local cm rest")
    from "1.IH" [OF rl [symmetric] False rc] have "list_all is_pkg_change evs'" .
    moreover from eq rl False rc have "evs = file_change atom_cls pkgs local cm (strip line) @ evs'"
      by auto
    ultimately show ?thesis by (simp add: file_change_only_changes)
  qed
qed

lemma commits_loop_only_changes:
  "commits_loop atom_cls pkgs local line s = (items, e) \<Longrightarrow> pkgs \<Longrightarrow> list_all is_pkg_change items"
proof (induction atom_cls pkgs local line s arbitrary: items e rule: commits_loop.induct)
  case (1 atom_cls pkgs local line s)
  note eq = "1.prems"(1) [unfolded commits_loop.simps [of atom_cls pkgs local line s]]
  show ?case
  proof (cases "line = []")
    case True
    with eq show ?thesis by simp
  next
    case False
    obtain l1 s1 where r1: "readline s = (l1, s1)" by (cases "readline s")
    obtain l2 s2 where r2: "readline s1 = (l2, s2)" by (cases "readline s1")
    obtain l3 s3 where r3: "readline s2 = (l3, s3)" by (cases "readline s2")
    obtain l4 s4 where r4: "readline s3 = (l4, s4)" by (cases "readline s3")
    show ?thesis
    proof (cases "read_message s4 []")
      case (Returns x)
      obtain msg s5 where x: "x = (msg, s5)" by (cases x)
      define cm where "cm = \<lparr>hash = strip l1, commit_date = strip l2, author = strip l3,
                           committer = strip l4, message = msg\<rparr>"
      obtain evs line' s6 where rc: "read_changes atom_cls pkgs local cm s5 = (evs, line', s6)"
        by (cases "read_changes atom_cls pkgs local cm s5")
      obtain later e' where cl: "commits_loop atom_cls pkgs local line' s6 = (later, e')"
        by (cases "commits_loop atom_cls pkgs local line' s6")
      have "list_all is_pkg_change later"
        using "1.IH" [OF False r1 [symmetric] r2 [symmetric] r3 [symmetric] r4 [symmetric]
            Returns x [symmetric] cm_def rc [symmetric] refl cl "1.prems"(2)] .
      moreover have "list_all is_pkg_change evs"
        using rc by (rule read_changes_only_changes)
      moreover from eq False r1 r2 r3 r4 Returns x rc cl "1.prems"(2)
      have "items = evs @ later"
        by (simp add: cm_def)
      ultimately show ?thesis by simp
    next
      case (Raises err)
      with eq False r1 r2 r3 r4 show ?thesis by simp
    next
      case Diverges
      with eq False r1 r2 r3 r4 show ?thesis by simp
    qed
  qed
qed

lemma parse_git_log_only_changes:
  "parse_git_log git_log atom_cls commit_range True local = (items, e) \<Longrightarrow> list_all is_pkg_change items"
  by (auto simp: parse_git_log_def Let_def split: prod.splits if_splits
           dest: commits_loop_only_changes)

section \<open>Properties of the change classifier\<close>

text \<open>A match in which group 1 takes no part is one of the rename alternative, in
  which group 4 is \<^verbatim>\<open>R\<close>: the classifier's last branch is never taken.\<close>

lemma rmatch_keeps_group:
  "(n', s', g') \<in> set (rmatch r (n, s, g)) \<Longrightarrow> i \<notin> groups_of r \<Longrightarrow> g' i = g i"
proof (induction r arbitrary: n s g n' s' g')
  case (Lit l)
  then show ?case by (auto split: if_splits)
next
  case (Plus P)
  then show ?case by auto
next
  case Bol
  then show ?case by (auto split: if_splits)
next
  case Eol
  then show ?case by (auto split: if_splits)
next
  case (Seq a b)
  from Seq.prems(1) obtain n1 s1 g1 where
    a: "(n1, s1, g1) \<in> set (rmatch a (n, s, g))" and b: "(n', s', g') \<in> set (rmatch b (n1, s1, g1))"
    by auto
  from Seq.prems(2) have "i \<notin> groups_of a" and "i \<notin> groups_of b" by auto
  with Seq.IH(1) [OF a] Seq.IH(2) [OF b] show ?case by simp
next
  case (Alt a b)
  then show ?case by auto
next
  case (Group j r)
  from Group.prems(1) obtain g0 where
    r: "(n', s', g0) \<in> set (rmatch r (n, s, g))" and g': "g' = g0(j \<mapsto> take (n' - n) s)"
    by auto
  from Group.prems(2) have "i \<noteq> j" and "i \<notin> groups_of r" by auto
  with Group.IH [OF r] g' show ?case by simp
qed

lemma rmatch_SeqD:
  assumes "(n', s', g') \<in> set (rmatch (Seq a b) st)"
  shows "\<exists>n1 s1 g1. (n1, s1, g1) \<in> set (rmatch a st) \<and> (n', s', g') \<in> set (rmatch b (n1, s1, g1))"
  using assms by auto

lemma rmatch_Group_set:
  "(n', s', g') \<in> set (rmatch (Group i r) (n, s, g)) \<Longrightarrow> g' i \<noteq> None"
  by auto

lemma rmatch_Group_Lit:
  "(n', s', g') \<in> set (rmatch (Group i (Lit l)) (n, s, g)) \<Longrightarrow> g' i = Some l"
  by (auto split: if_splits)

lemma alt1_sets_group_1:
  assumes "(n', s', g') \<in> set (rmatch (seqs [Bol, Group 1 (Alt (Lit ''A'') (Alt (Lit ''D'') (Lit ''M''))), Lit [TAB],
                ebuild_regex 2]) st)"
  shows "g' 1 \<noteq> None"
proof -
  let ?grp = "Group 1 (Alt (Lit ''A'') (Alt (Lit ''D'') (Lit ''M'')))"
  let ?rest = "Seq (Lit [TAB]) (ebuild_regex 2)"
  from assms have "(n', s', g') \<in> set (rmatch (Seq Bol (Seq ?grp ?rest)) st)"
    by (simp only: seqs.simps)
  then obtain n1 s1 g1 where
    "(n', s', g') \<in> set (rmatch (Seq ?grp ?rest) (n1, s1, g1))"
    using rmatch_SeqD by blast
  then obtain n2 s2 g2 where
    grp: "(n2, s2, g2) \<in> set (rmatch ?grp (n1, s1, g1))"
    and rest: "(n', s', g') \<in> set (rmatch ?rest (n2, s2, g2))"
    using rmatch_SeqD by blast
  from grp have "g2 1 \<noteq> None" by (rule rmatch_Group_set)
  moreover have "1 \<notin> groups_of ?rest"
    by (simp add: ebuild_regex_def)
  ultimately show ?thesis using rmatch_keeps_group [OF rest] by simp
qed

lemma alt2_sets_group_4:
  assumes "(n', s', g') \<in> set (rmatch (seqs [Group 4 (Lit ''R''), Plus isdigit, Lit [TAB], ebuild_regex 5, Lit [TAB],
                ebuild_regex 7, Eol]) st)"
  shows "g' 4 = Some ''R''"
proof -
  let ?rest = "seqs [Plus isdigit, Lit [TAB], ebuild_regex 5, Lit [TAB], ebuild_regex 7, Eol]"
  obtain n s g where st: "st = (n, s, g)" by (cases st)
  from assms have "(n', s', g') \<in> set (rmatch (Seq (Group 4 (Lit ''R'')) ?rest) st)"
    by (simp only: seqs.simps)
  then obtain n2 s2 g2 where
    grp: "(n2, s2, g2) \<in> set (rmatch (Group 4 (Lit ''R'')) (n, s, g))"
    and rest: "(n', s', g') \<in> set (rmatch ?rest (n2, s2, g2))"
    unfolding st using rmatch_SeqD by blast
  from grp have "g2 4 = Some ''R''" by (rule rmatch_Group_Lit)
  moreover have "4 \<notin> groups_of ?rest"
    by (simp add: ebuild_regex_def)
  ultimately show ?thesis using rmatch_keeps_group [OF rest] by simp
qed

lemma rename_alternative_sets_group_4:
  assumes "re_match git_log_regex line = Some g" and "g 1 = None"
  shows "g 4 = Some ''R''"
proof -
  let ?a1 = "seqs [Bol, Group 1 (Alt (Lit ''A'') (Alt (Lit ''D'') (Lit ''M''))), Lit [TAB], ebuild_regex 2]"
  let ?a2 = "seqs [Group 4 (Lit ''R''), Plus isdigit, Lit [TAB], ebuild_regex 5, Lit [TAB], ebuild_regex 7, Eol]"
  from assms(1) obtain n s where "(n, s, g) \<in> set (rmatch git_log_regex (0, line, Map.empty))"
    by (auto simp: re_match_def split: list.splits)
  then have "(n, s, g) \<in> set (rmatch ?a1 (0, line, Map.empty)) \<or>
             (n, s, g) \<in> set (rmatch ?a2 (0, line, Map.empty))"
    unfolding git_log_regex_def rmatch.simps(6) by simp
  then show ?thesis
  proof
    assume "(n, s, g) \<in> set (rmatch ?a1 (0, line, Map.empty))"
    then have "g 1 \<noteq> None" by (rule alt1_sets_group_1)
    with assms(2) show ?thesis by simp
  next
    assume "(n, s, g) \<in> set (rmatch ?a2 (0, line, Map.empty))"
    then show ?thesis by (rule alt2_sets_group_4)
  qed
qed

lemma no_match_of_empty_line: "re_match git_log_regex [] = None"
  by code_simp

text \<open>
  C1, as the code has it. Let a line match the rename alternative of the expression, so
  that groups 5 and 6 are category and package of its first path, which git prints for
  the old name, and groups 7 and 8 those of its second path, the new name; and let both
  give valid atoms. Then the classifier yields an event for the old atom; in local mode
  it yields a second event, for the new atom, whose extra data holds the old atom under
  \<^verbatim>\<open>old_atom\<close>; and without local mode it yields the one event only.
\<close>

theorem rename_line_events:
  assumes "re_match git_log_regex line = Some g"
    and "g 1 = None" and "g 4 = Some st"
    and "g 5 = Some old_category" and "g 6 = Some old_pkg"
    and "g 7 = Some new_category" and "g 8 = Some new_pkg"
    and "atom_cls (''='' @ old_category @ ''/'' @ old_pkg) = Some old_atom"
    and "atom_cls (''='' @ new_category @ ''/'' @ new_pkg) = Some new_atom"
  shows "file_change atom_cls True local cm line =
           (if local
            then [PkgChange \<lparr>atom = old_atom, status = st, commit = cm, data = []\<rparr>,
                  PkgChange \<lparr>atom = new_atom, status = st, commit = cm,
                             data = [(''old_atom'', old_atom)]\<rparr>]
            else [PkgChange \<lparr>atom = old_atom, status = st, commit = cm, data = []\<rparr>])"
proof -
  from assms(1) have "line \<noteq> []"
    using no_match_of_empty_line by auto
  with assms show ?thesis
    by (simp add: file_change_def)
qed

theorem rename_line_events_witness:
  "(case re_match git_log_regex rename_line of
      None \<Rightarrow> False
    | Some g \<Rightarrow> g 1 = None \<and> g 4 = Some ''R'' \<and> g 5 = Some ''cat'' \<and> g 6 = Some ''old-1'' \<and>
                g 7 = Some ''cat'' \<and> g 8 = Some ''new-1'')
   \<and> sample_atom_cls (''='' @ ''cat'' @ ''/'' @ ''old-1'') = Some atom_old_1
   \<and> sample_atom_cls (''='' @ ''cat'' @ ''/'' @ ''new-1'') = Some atom_new_1
   \<and> file_change sample_atom_cls True True (sample_GitCommit ''abc7777'' ''2020-07-01'') rename_line =
       [PkgChange \<lparr>atom = atom_old_1, status = ''R'',
                   commit = sample_GitCommit ''abc7777'' ''2020-07-01'', data = []\<rparr>,
        PkgChange \<lparr>atom = atom_new_1, status = ''R'',
                   commit = sample_GitCommit ''abc7777'' ''2020-07-01'',
                   data = [(''old_atom'', atom_old_1)]\<rparr>]
   \<and> file_change sample_atom_cls True False (sample_GitCommit ''abc7777'' ''2020-07-01'') rename_line =
       [PkgChange \<lparr>atom = atom_old_1, status = ''R'',
                   commit = sample_GitCommit ''abc7777'' ''2020-07-01'', data = []\<rparr>]"
proof -
  have m: "(case re_match git_log_regex rename_line of
      None \<Rightarrow> False
    | Some g \<Rightarrow> g 1 = None \<and> g 4 = Some ''R'' \<and> g 5 = Some ''cat'' \<and> g 6 = Some ''old-1'' \<and>
                g 7 = Some ''cat'' \<and> g 8 = Some ''new-1'')"
    by code_simp
  then obtain g where g: "re_match git_log_regex rename_line = Some g"
    and g1: "g 1 = None" and g4: "g 4 = Some ''R''"
    and g5: "g 5 = Some ''cat''" and g6: "g 6 = Some ''old-1''"
    and g7: "g 7 = Some ''cat''" and g8: "g 8 = Some ''new-1''"
    by (cases "re_match git_log_regex rename_line") auto
  have a1: "sample_atom_cls (''='' @ ''cat'' @ ''/'' @ ''old-1'') = Some atom_old_1"
    by (simp add: sample_atom_cls_def atom_old_1_def)
  have a2: "sample_atom_cls (''='' @ ''cat'' @ ''/'' @ ''new-1'') = Some atom_new_1"
    by (simp add: sample_atom_cls_def atom_new_1_def)
  from rename_line_events [OF g g1 g4 g5 g6 g7 g8 a1 a2, of True "sample_GitCommit ''abc7777'' ''2020-07-01''"]
    rename_line_events [OF g g1 g4 g5 g6 g7 g8 a1 a2, of False "sample_GitCommit ''abc7777'' ''2020-07-01''"]
    m a1 a2
  show ?thesis by simp
qed

text \<open>
  C1 as stated fails. The one commit of the range \<^verbatim>\<open>E..F\<close> renames \<^verbatim>\<open>cat/old-1\<close> to
  \<^verbatim>\<open>cat/new-1\<close>. Without local mode the parser yields one event, for the old atom and not
  for the new one; in local mode the second event is for the new atom and carries the old
  one, not the other way round.
\<close>

theorem rename_counterexample:
  "stdout (sample_git_log ''E..F'') =
     sample_commit ''abc7777'' ''2020-07-01'' [rename_line]
   \<and> sample_atom_cls ''=cat/old-1'' = Some atom_old_1
   \<and> sample_atom_cls ''=cat/new-1'' = Some atom_new_1
   \<and> atom_old_1 \<noteq> atom_new_1
   \<and> parse_git_log sample_git_log sample_atom_cls ''E..F'' True False =
       ([PkgChange \<lparr>atom = atom_old_1, status = ''R'',
                    commit = sample_GitCommit ''abc7777'' ''2020-07-01'', data = []\<rparr>],
        Returns ())
   \<and> parse_git_log sample_git_log sample_atom_cls ''E..F'' True True =
       ([PkgChange \<lparr>atom = atom_old_1, status = ''R'',
                    commit = sample_GitCommit ''abc7777'' ''2020-07-01'', data = []\<rparr>,
         PkgChange \<lparr>atom = atom_new_1, status = ''R'',
                    commit = sample_GitCommit ''abc7777'' ''2020-07-01'',
                    data = [(''old_atom'', atom_old_1)]\<rparr>],
        Returns ())"
proof -
  have s: "stdout (sample_git_log ''E..F'') = sample_commit ''abc7777'' ''2020-07-01'' [rename_line]"
    by (simp add: sample_git_log_def log_EF_def rename_line_def)
  have a1: "sample_atom_cls ''=cat/old-1'' = Some atom_old_1"
    by (simp add: sample_atom_cls_def atom_old_1_def)
  have a2: "sample_atom_cls ''=cat/new-1'' = Some atom_new_1"
    by (simp add: sample_atom_cls_def atom_new_1_def)
  have ne: "atom_old_1 \<noteq> atom_new_1"
    by (simp add: atom_old_1_def atom_new_1_def)
  have p1: "parse_git_log sample_git_log sample_atom_cls ''E..F'' True False =
       ([PkgChange \<lparr>atom = atom_old_1, status = ''R'',
                    commit = sample_GitCommit ''abc7777'' ''2020-07-01'', data = []\<rparr>],
        Returns ())"
    by code_simp
  have p2: "parse_git_log sample_git_log sample_atom_cls ''E..F'' True True =
       ([PkgChange \<lparr>atom = atom_old_1, status = ''R'',
                    commit = sample_GitCommit ''abc7777'' ''2020-07-01'', data = []\<rparr>,
         PkgChange \<lparr>atom = atom_new_1, status = ''R'',
                    commit = sample_GitCommit ''abc7777'' ''2020-07-01'',
                    data = [(''old_atom'', atom_old_1)]\<rparr>],
        Returns ())"
    by code_simp
  from s a1 a2 ne p1 p2 show ?thesis by blast
qed

section \<open>Properties of the merge\<close>

lemma map_of_setdefault:
  "map_of (setdefault k dflt f al) k' =
     (if k' = k then Some (f (case map_of al k of None \<Rightarrow> dflt | Some v \<Rightarrow> v)) else map_of al k')"
  by (induction al) auto

lemma has_cat_record_commit:
  "has_cat (record_commit c p st t d) c' \<longleftrightarrow> c' = c \<or> has_cat d c'"
  by (simp add: has_cat_def record_commit_def map_of_setdefault)

lemma has_pkg_record_commit:
  "has_pkg (record_commit c p st t d) c' p' \<longleftrightarrow> (c' = c \<and> p' = p) \<or> has_pkg d c' p'"
  by (auto simp: has_pkg_def record_commit_def map_of_setdefault split: option.splits)

lemma lookup_record_commit:
  "lookup (record_commit c p st t d) c' p' st' =
     (if c' = c \<and> p' = p \<and> st' = st
      then Some ((case lookup d c p st of None \<Rightarrow> [] | Some l \<Rightarrow> l) @ [t])
      else lookup d c' p' st')"
  by (auto simp: lookup_def record_commit_def map_of_setdefault split: option.splits)

lemma update_loop_record_all:
  "update_loop local evs seen d = record_all local (first_seen seen evs) d"
  by (induction evs arbitrary: seen d) (simp_all add: record_all_def Let_def seen_key_def)

lemma record_all_Cons:
  "record_all local (e # es) d =
     record_all local es (record_commit (category (atom e)) (package (atom e)) (status e)
                 (commit_tuple_of local e) d)"
  by (simp add: record_all_def)

lemma lookup_record_pkg:
  "lookup (record_commit (category (atom e)) (package (atom e)) (status e) t d) c p st =
     (if filed_at c p st e
      then Some ((case lookup d c p st of None \<Rightarrow> [] | Some l \<Rightarrow> l) @ [t])
      else lookup d c p st)"
  by (auto simp: lookup_record_commit filed_at_def)

lemma lookup_record_all:
  "lookup (record_all local es d) c p st =
     (if filter (filed_at c p st) es = [] then lookup d c p st
      else Some ((case lookup d c p st of None \<Rightarrow> [] | Some l \<Rightarrow> l) @
                 map (commit_tuple_of local) (filter (filed_at c p st) es)))"
proof (induction es arbitrary: d)
  case Nil
  show ?case by (simp add: record_all_def)
next
  case (Cons e es)
  show ?case
  proof (cases "filed_at c p st e")
    case True
    then show ?thesis
      unfolding record_all_Cons Cons.IH by (simp add: lookup_record_pkg)
  next
    case False
    then show ?thesis
      unfolding record_all_Cons Cons.IH by (simp add: lookup_record_pkg)
  qed
qed

lemma has_cat_record_all:
  "has_cat (record_all local es d) c \<longleftrightarrow> has_cat d c \<or> c \<in> (\<lambda>e. category (atom e)) ` set es"
proof (induction es arbitrary: d)
  case Nil
  show ?case by (simp add: record_all_def)
next
  case (Cons e es)
  show ?case
    unfolding record_all_Cons Cons.IH
    by (auto simp: has_cat_record_commit)
qed

lemma has_pkg_record_all:
  "has_pkg (record_all local es d) c p \<longleftrightarrow>
     has_pkg d c p \<or> (c, p) \<in> (\<lambda>e. (category (atom e), package (atom e))) ` set es"
proof (induction es arbitrary: d)
  case Nil
  show ?case by (simp add: record_all_def)
next
  case (Cons e es)
  show ?case
    unfolding record_all_Cons Cons.IH
    by (auto simp: has_pkg_record_commit)
qed

lemma update_Returns:
  assumes "update git_log atom_cls commit_range data_arg local = Returns d'"
  shows "\<exists>items. parse_git_log git_log atom_cls commit_range True local = (items, Returns ())
           \<and> d' = record_all local (first_seen {} (pkg_changes items))
                    (case data_arg of None \<Rightarrow> [] | Some d \<Rightarrow> d)"
proof -
  obtain items e where p: "parse_git_log git_log atom_cls commit_range True local = (items, e)"
    by (cases "parse_git_log git_log atom_cls commit_range True local")
  with assms show ?thesis
    by (cases e) (simp_all add: update_def update_loop_record_all)
qed

text \<open>
  C4. Whatever \<^verbatim>\<open>update\<close> is given as existing data, and for every commit range: a list
  of tuples that the existing data holds under a category, package and status is, in the
  data that \<^verbatim>\<open>update\<close> returns, still there under the same keys, with every tuple in its
  place; the call only appends to it.
\<close>

theorem update_only_appends:
  assumes "update git_log atom_cls commit_range (Some d) local = Returns d'"
    and "lookup d c p st = Some l"
  shows "\<exists>new. lookup d' c p st = Some (l @ new)"
proof -
  from assms(1) obtain items where
    d': "d' = record_all local (first_seen {} (pkg_changes items)) d"
    using update_Returns [of git_log atom_cls commit_range "Some d" local d'] by auto
  show ?thesis
    unfolding d' lookup_record_all using assms(2) by simp
qed

theorem update_only_appends_witness:
  "update sample_git_log sample_atom_cls ''B..C''
      (Some [(''cat'', [(''pkg'', [(''A'', [Tuple3 ''1'' ''2020-01-01'' ''aaa1111''])])])]) False
     = Returns [(''cat'', [(''pkg'', [(''A'', [Tuple3 ''1'' ''2020-01-01'' ''aaa1111'',
                                              Tuple3 ''2'' ''2020-02-01'' ''bbb2222''])])])]
   \<and> lookup [(''cat'', [(''pkg'', [(''A'', [Tuple3 ''1'' ''2020-01-01'' ''aaa1111''])])])]
        ''cat'' ''pkg'' ''A'' = Some [Tuple3 ''1'' ''2020-01-01'' ''aaa1111'']
   \<and> (\<exists>new. lookup [(''cat'', [(''pkg'', [(''A'', [Tuple3 ''1'' ''2020-01-01'' ''aaa1111'',
                                              Tuple3 ''2'' ''2020-02-01'' ''bbb2222''])])])]
        ''cat'' ''pkg'' ''A'' = Some ([Tuple3 ''1'' ''2020-01-01'' ''aaa1111''] @ new))"
proof -
  have u: "update sample_git_log sample_atom_cls ''B..C''
      (Some [(''cat'', [(''pkg'', [(''A'', [Tuple3 ''1'' ''2020-01-01'' ''aaa1111''])])])]) False
     = Returns [(''cat'', [(''pkg'', [(''A'', [Tuple3 ''1'' ''2020-01-01'' ''aaa1111'',
                                              Tuple3 ''2'' ''2020-02-01'' ''bbb2222''])])])]"
    by code_simp
  have l: "lookup [(''cat'', [(''pkg'', [(''A'', [Tuple3 ''1'' ''2020-01-01'' ''aaa1111''])])])]
        ''cat'' ''pkg'' ''A'' = Some [Tuple3 ''1'' ''2020-01-01'' ''aaa1111'']"
    by (simp add: lookup_def)
  from update_only_appends [OF u l] u l show ?thesis by blast
qed

lemma first_seen_append:
  "first_seen seen (xs @ ys) = first_seen seen xs @ first_seen (seen \<union> seen_key ` set xs) ys"
proof (induction xs arbitrary: seen)
  case Nil
  show ?case by simp
next
  case (Cons x xs)
  show ?case
  proof (cases "seen_key x \<in> seen")
    case True
    then have "seen \<union> seen_key ` set (x # xs) = seen \<union> seen_key ` set xs"
      by auto
    with True Cons.IH [of seen] show ?thesis by simp
  next
    case False
    have "seen \<union> seen_key ` set (x # xs) = insert (seen_key x) seen \<union> seen_key ` set xs"
      by auto
    with False Cons.IH [of "insert (seen_key x) seen"] show ?thesis by simp
  qed
qed

lemma first_seen_disjoint:
  "seen_key ` set ys \<inter> S = {} \<Longrightarrow> first_seen (seen \<union> S) ys = first_seen seen ys"
proof (induction ys arbitrary: seen)
  case Nil
  show ?case by simp
next
  case (Cons y ys)
  from Cons.prems have notin: "seen_key y \<notin> S"
    and rest: "seen_key ` set ys \<inter> S = {}" by auto
  show ?case
    using notin Cons.IH [OF rest, of seen] Cons.IH [OF rest, of "insert (seen_key y) seen"]
    by simp
qed

lemma filter_first_seen:
  "filter (\<lambda>e. seen_key e = k) (first_seen seen evs) =
     (if k \<in> seen then []
      else (case find (\<lambda>e. seen_key e = k) evs of None \<Rightarrow> [] | Some e \<Rightarrow> [e]))"
proof (induction evs arbitrary: seen)
  case Nil
  show ?case by simp
next
  case (Cons x xs)
  show ?case
    using Cons.IH [of seen] Cons.IH [of "insert (seen_key x) seen"]
    by (auto split: option.splits)
qed

lemma seen_key_iff:
  "seen_key e = (a, st) \<longleftrightarrow> filed_at (category a) (package a) st e \<and> fullver (atom e) = fullver a"
  by (auto simp: seen_key_def filed_at_def)

lemma tuple_fullver_commit_tuple_of [simp]:
  "tuple_fullver (commit_tuple_of local e) = fullver (atom e)"
  by (simp add: commit_tuple_of_def)

lemma record_all_append:
  "record_all local (xs @ ys) d = record_all local ys (record_all local xs d)"
  by (simp add: record_all_def)

lemma update_returns_record_all:
  assumes "parse_git_log git_log atom_cls commit_range True local = (items, Returns ())"
  shows "update git_log atom_cls commit_range data_arg local =
           Returns (record_all local (first_seen {} (pkg_changes items))
                      (case data_arg of None \<Rightarrow> [] | Some d \<Rightarrow> d))"
  using assms by (simp add: update_def update_loop_record_all)

text \<open>
  C3. In one call of \<^verbatim>\<open>update\<close>, for every pair of an atom and a status that occurs in
  the stream of package changes parsed for the commit range (once or several times):
  among the tuples that the call appends under the atom's category and package and the
  status, exactly one has the atom's version, and it is the tuple of the first occurrence
  of the pair in the stream.
\<close>

theorem update_records_first_occurrence:
  assumes "parse_git_log git_log atom_cls commit_range True local = (items, Returns ())"
    and "find (\<lambda>e. seen_key e = (a, st)) (pkg_changes items) = Some e1"
  shows "\<exists>d' new.
           update git_log atom_cls commit_range data_arg local = Returns d' \<and>
           lookup d' (category a) (package a) st =
             Some (entries (case data_arg of None \<Rightarrow> [] | Some d \<Rightarrow> d)
                     (category a) (package a) st @ new) \<and>
           filter (\<lambda>t. tuple_fullver t = fullver a) new = [commit_tuple_of local e1]"
proof -
  define d0 where "d0 = (case data_arg of None \<Rightarrow> [] | Some d \<Rightarrow> d)"
  define K where "K = first_seen {} (pkg_changes items)"
  define new where "new = map (commit_tuple_of local) (filter (filed_at (category a) (package a) st) K)"
  have u: "update git_log atom_cls commit_range data_arg local = Returns (record_all local K d0)"
    unfolding K_def d0_def by (rule update_returns_record_all [OF assms(1)])
  have one: "filter (\<lambda>e. seen_key e = (a, st)) K = [e1]"
    unfolding K_def filter_first_seen using assms(2) by simp
  have split: "filter (\<lambda>e. seen_key e = (a, st)) K =
      filter (\<lambda>e. fullver (atom e) = fullver a) (filter (filed_at (category a) (package a) st) K)"
    by (simp add: seen_key_iff conj_commute)
  have nonempty: "filter (filed_at (category a) (package a) st) K \<noteq> []"
  proof
    assume "filter (filed_at (category a) (package a) st) K = []"
    then have "filter (\<lambda>e. seen_key e = (a, st)) K = []"
      unfolding split by simp
    with one show False by simp
  qed
  have l: "lookup (record_all local K d0) (category a) (package a) st =
      Some (entries d0 (category a) (package a) st @ new)"
    unfolding lookup_record_all new_def entries_def using nonempty by simp
  have "filter (\<lambda>t. tuple_fullver t = fullver a) new =
      map (commit_tuple_of local)
        (filter (\<lambda>e. fullver (atom e) = fullver a) (filter (filed_at (category a) (package a) st) K))"
    unfolding new_def by (simp add: filter_map comp_def)
  also have "\<dots> = [commit_tuple_of local e1]"
    using one split by simp
  finally have f: "filter (\<lambda>t. tuple_fullver t = fullver a) new = [commit_tuple_of local e1]" .
  from u l f show ?thesis unfolding d0_def by blast
qed

theorem update_records_first_occurrence_witness:
  "parse_git_log sample_git_log sample_atom_cls ''C..D'' True False =
     ([PkgChange (sample_change atom_pkg_2 ''M'' (sample_GitCommit ''ddd4444'' ''2020-04-01'')),
       PkgChange (sample_change atom_pkg_2 ''M'' (sample_GitCommit ''ccc3333'' ''2020-03-01''))],
      Returns ())
   \<and> find (\<lambda>e. seen_key e = (atom_pkg_2, ''M''))
        (pkg_changes
          [PkgChange (sample_change atom_pkg_2 ''M'' (sample_GitCommit ''ddd4444'' ''2020-04-01'')),
           PkgChange (sample_change atom_pkg_2 ''M'' (sample_GitCommit ''ccc3333'' ''2020-03-01''))])
       = Some (sample_change atom_pkg_2 ''M'' (sample_GitCommit ''ddd4444'' ''2020-04-01''))
   \<and> update sample_git_log sample_atom_cls ''C..D'' None False =
       Returns [(''cat'', [(''pkg'', [(''M'', [Tuple3 ''2'' ''2020-04-01'' ''ddd4444''])])])]
   \<and> commit_tuple_of False (sample_change atom_pkg_2 ''M'' (sample_GitCommit ''ddd4444'' ''2020-04-01''))
       = Tuple3 ''2'' ''2020-04-01'' ''ddd4444''
   \<and> (\<exists>d' new.
         update sample_git_log sample_atom_cls ''C..D'' None False = Returns d' \<and>
         lookup d' (category atom_pkg_2) (package atom_pkg_2) ''M'' =
           Some (entries (case None of None \<Rightarrow> [] | Some d \<Rightarrow> d)
                   (category atom_pkg_2) (package atom_pkg_2) ''M'' @ new) \<and>
         filter (\<lambda>t. tuple_fullver t = fullver atom_pkg_2) new =
           [commit_tuple_of False
              (sample_change atom_pkg_2 ''M'' (sample_GitCommit ''ddd4444'' ''2020-04-01''))])"
proof -
  have p: "parse_git_log sample_git_log sample_atom_cls ''C..D'' True False =
     ([PkgChange (sample_change atom_pkg_2 ''M'' (sample_GitCommit ''ddd4444'' ''2020-04-01'')),
       PkgChange (sample_change atom_pkg_2 ''M'' (sample_GitCommit ''ccc3333'' ''2020-03-01''))],
      Returns ())"
    by code_simp
  have f: "find (\<lambda>e. seen_key e = (atom_pkg_2, ''M''))
        (pkg_changes
          [PkgChange (sample_change atom_pkg_2 ''M'' (sample_GitCommit ''ddd4444'' ''2020-04-01'')),
           PkgChange (sample_change atom_pkg_2 ''M'' (sample_GitCommit ''ccc3333'' ''2020-03-01''))])
       = Some (sample_change atom_pkg_2 ''M'' (sample_GitCommit ''ddd4444'' ''2020-04-01''))"
    by (simp add: seen_key_def sample_change_def)
  have u: "update sample_git_log sample_atom_cls ''C..D'' None False =
       Returns [(''cat'', [(''pkg'', [(''M'', [Tuple3 ''2'' ''2020-04-01'' ''ddd4444''])])])]"
    by code_simp
  have t: "commit_tuple_of False (sample_change atom_pkg_2 ''M'' (sample_GitCommit ''ddd4444'' ''2020-04-01''))
       = Tuple3 ''2'' ''2020-04-01'' ''ddd4444''"
    by code_simp
  from update_records_first_occurrence [OF p f, of None] p f u t show ?thesis
    by blast
qed

lemma record_all_swap_up_to_order:
  "same_up_to_order (record_all local (xs @ ys) d) (record_all local (ys @ xs) d)"
  unfolding same_up_to_order_def has_cat_record_all has_pkg_record_all lookup_record_all
  by auto

lemma entries_record_all:
  "entries (record_all local es d) c p st =
     entries d c p st @ map (commit_tuple_of local) (filter (filed_at c p st) es)"
  by (simp add: entries_def lookup_record_all)

text \<open>
  C2, as the code has it. Let the parser end normally on the ranges \<^verbatim>\<open>A..B\<close>, \<^verbatim>\<open>B..C\<close>
  and \<^verbatim>\<open>A..C\<close>, let the package changes of \<^verbatim>\<open>A..C\<close> be those of \<^verbatim>\<open>B..C\<close> followed by those
  of \<^verbatim>\<open>A..B\<close> (the newest commit comes first in the log), and let no pair of an atom and a
  status occur in both partial streams. Then \<^verbatim>\<open>update\<close> returns on each range, and under
  every category, package and status the list of the incremental merge (\<^verbatim>\<open>B..C\<close> on the
  result of \<^verbatim>\<open>A..B\<close>) is the tuples of \<^verbatim>\<open>A..B\<close> followed by those of \<^verbatim>\<open>B..C\<close>, while the
  list of the full merge of \<^verbatim>\<open>A..C\<close> is the tuples of \<^verbatim>\<open>B..C\<close> followed by those of \<^verbatim>\<open>A..B\<close>.
  So the two results have the same categories, packages and statuses and, under each,
  the same tuples up to their order in the list.
\<close>

theorem update_incremental_order:
  assumes "parse_git_log git_log atom_cls range_AB True local = (items_AB, Returns ())"
    and "parse_git_log git_log atom_cls range_BC True local = (items_BC, Returns ())"
    and "parse_git_log git_log atom_cls range_AC True local = (items_AC, Returns ())"
    and "pkg_changes items_AC = pkg_changes items_BC @ pkg_changes items_AB"
    and "seen_key ` set (pkg_changes items_AB) \<inter> seen_key ` set (pkg_changes items_BC) = {}"
  shows "\<exists>d_AB d_BC d_inc d_full.
           update git_log atom_cls range_AB None local = Returns d_AB \<and>
           update git_log atom_cls range_BC None local = Returns d_BC \<and>
           update git_log atom_cls range_BC (Some d_AB) local = Returns d_inc \<and>
           update git_log atom_cls range_AC None local = Returns d_full \<and>
           (\<forall>c p st. entries d_inc c p st = entries d_AB c p st @ entries d_BC c p st) \<and>
           (\<forall>c p st. entries d_full c p st = entries d_BC c p st @ entries d_AB c p st) \<and>
           same_up_to_order d_full d_inc"
proof -
  define K_AB where "K_AB = first_seen {} (pkg_changes items_AB)"
  define K_BC where "K_BC = first_seen {} (pkg_changes items_BC)"
  have u1: "update git_log atom_cls range_AB None local = Returns (record_all local K_AB [])"
    unfolding K_AB_def using update_returns_record_all [OF assms(1), of None] by simp
  have u1': "update git_log atom_cls range_BC None local = Returns (record_all local K_BC [])"
    unfolding K_BC_def using update_returns_record_all [OF assms(2), of None] by simp
  have u2: "update git_log atom_cls range_BC (Some (record_all local K_AB [])) local =
      Returns (record_all local (K_AB @ K_BC) [])"
    unfolding K_BC_def record_all_append
    using update_returns_record_all [OF assms(2), of "Some (record_all local K_AB [])"] by simp
  have "first_seen {} (pkg_changes items_AC) =
      K_BC @ first_seen ({} \<union> seen_key ` set (pkg_changes items_BC)) (pkg_changes items_AB)"
    unfolding assms(4) K_BC_def by (rule first_seen_append)
  also have "first_seen ({} \<union> seen_key ` set (pkg_changes items_BC)) (pkg_changes items_AB) = K_AB"
    unfolding K_AB_def by (rule first_seen_disjoint [OF assms(5)])
  finally have K_AC: "first_seen {} (pkg_changes items_AC) = K_BC @ K_AB" .
  have u3: "update git_log atom_cls range_AC None local = Returns (record_all local (K_BC @ K_AB) [])"
    using update_returns_record_all [OF assms(3), of None] by (simp add: K_AC)
  have e_inc: "\<forall>c p st. entries (record_all local (K_AB @ K_BC) []) c p st =
      entries (record_all local K_AB []) c p st @ entries (record_all local K_BC []) c p st"
    by (simp add: entries_record_all) (simp add: entries_def lookup_def)
  have e_full: "\<forall>c p st. entries (record_all local (K_BC @ K_AB) []) c p st =
      entries (record_all local K_BC []) c p st @ entries (record_all local K_AB []) c p st"
    by (simp add: entries_record_all) (simp add: entries_def lookup_def)
  from u1 u1' u2 u3 e_inc e_full record_all_swap_up_to_order [of local K_BC K_AB "[]"]
  show ?thesis by blast
qed

theorem update_incremental_order_witness:
  "parse_git_log sample_git_log sample_atom_cls ''A..B'' True False =
     ([PkgChange (sample_change atom_pkg_1 ''A'' (sample_GitCommit ''aaa1111'' ''2020-01-01''))],
      Returns ())
   \<and> parse_git_log sample_git_log sample_atom_cls ''B..C'' True False =
     ([PkgChange (sample_change atom_pkg_2 ''A'' (sample_GitCommit ''bbb2222'' ''2020-02-01''))],
      Returns ())
   \<and> parse_git_log sample_git_log sample_atom_cls ''A..C'' True False =
     ([PkgChange (sample_change atom_pkg_2 ''A'' (sample_GitCommit ''bbb2222'' ''2020-02-01'')),
       PkgChange (sample_change atom_pkg_1 ''A'' (sample_GitCommit ''aaa1111'' ''2020-01-01''))],
      Returns ())
   \<and> entries [(''cat'', [(''pkg'', [(''A'', [Tuple3 ''1'' ''2020-01-01'' ''aaa1111'',
                                               Tuple3 ''2'' ''2020-02-01'' ''bbb2222''])])])]
         ''cat'' ''pkg'' ''A'' =
       entries [(''cat'', [(''pkg'', [(''A'', [Tuple3 ''1'' ''2020-01-01'' ''aaa1111''])])])]
         ''cat'' ''pkg'' ''A'' @
       entries [(''cat'', [(''pkg'', [(''A'', [Tuple3 ''2'' ''2020-02-01'' ''bbb2222''])])])]
         ''cat'' ''pkg'' ''A''
   \<and> (\<exists>d_AB d_BC d_inc d_full.
         update sample_git_log sample_atom_cls ''A..B'' None False = Returns d_AB \<and>
         update sample_git_log sample_atom_cls ''B..C'' None False = Returns d_BC \<and>
         update sample_git_log sample_atom_cls ''B..C'' (Some d_AB) False = Returns d_inc \<and>
         update sample_git_log sample_atom_cls ''A..C'' None False = Returns d_full \<and>
         (\<forall>c p st. entries d_inc c p st = entries d_AB c p st @ entries d_BC c p st) \<and>
         (\<forall>c p st. entries d_full c p st = entries d_BC c p st @ entries d_AB c p st) \<and>
         same_up_to_order d_full d_inc)"
proof -
  have ab: "parse_git_log sample_git_log sample_atom_cls ''A..B'' True False =
     ([PkgChange (sample_change atom_pkg_1 ''A'' (sample_GitCommit ''aaa1111'' ''2020-01-01''))],
      Returns ())"
    by code_simp
  have bc: "parse_git_log sample_git_log sample_atom_cls ''B..C'' True False =
     ([PkgChange (sample_change atom_pkg_2 ''A'' (sample_GitCommit ''bbb2222'' ''2020-02-01''))],
      Returns ())"
    by code_simp
  have ac: "parse_git_log sample_git_log sample_atom_cls ''A..C'' True False =
     ([PkgChange (sample_change atom_pkg_2 ''A'' (sample_GitCommit ''bbb2222'' ''2020-02-01'')),
       PkgChange (sample_change atom_pkg_1 ''A'' (sample_GitCommit ''aaa1111'' ''2020-01-01''))],
      Returns ())"
    by code_simp
  have order: "pkg_changes
       [PkgChange (sample_change atom_pkg_2 ''A'' (sample_GitCommit ''bbb2222'' ''2020-02-01'')),
        PkgChange (sample_change atom_pkg_1 ''A'' (sample_GitCommit ''aaa1111'' ''2020-01-01''))] =
     pkg_changes
       [PkgChange (sample_change atom_pkg_2 ''A'' (sample_GitCommit ''bbb2222'' ''2020-02-01''))] @
     pkg_changes
       [PkgChange (sample_change atom_pkg_1 ''A'' (sample_GitCommit ''aaa1111'' ''2020-01-01''))]"
    by simp
  have disjoint: "seen_key ` set (pkg_changes
       [PkgChange (sample_change atom_pkg_1 ''A'' (sample_GitCommit ''aaa1111'' ''2020-01-01''))]) \<inter>
     seen_key ` set (pkg_changes
       [PkgChange (sample_change atom_pkg_2 ''A'' (sample_GitCommit ''bbb2222'' ''2020-02-01''))]) = {}"
    by (simp add: seen_key_def sample_change_def atom_pkg_1_def atom_pkg_2_def)
  have e: "entries [(''cat'', [(''pkg'', [(''A'', [Tuple3 ''1'' ''2020-01-01'' ''aaa1111'',
                                               Tuple3 ''2'' ''2020-02-01'' ''bbb2222''])])])]
         ''cat'' ''pkg'' ''A'' =
       entries [(''cat'', [(''pkg'', [(''A'', [Tuple3 ''1'' ''2020-01-01'' ''aaa1111''])])])]
         ''cat'' ''pkg'' ''A'' @
       entries [(''cat'', [(''pkg'', [(''A'', [Tuple3 ''2'' ''2020-02-01'' ''bbb2222''])])])]
         ''cat'' ''pkg'' ''A''"
    by (simp add: entries_def lookup_def)
  from update_incremental_order [OF ab bc ac order disjoint] ab bc ac e show ?thesis
    by blast
qed

text \<open>
  C2 as stated fails. The range \<^verbatim>\<open>A..B\<close> adds version 1 of \<^verbatim>\<open>cat/pkg\<close>, the range \<^verbatim>\<open>B..C\<close>
  adds version 2: no pair of an atom and a status is in both. \<^verbatim>\<open>update\<close> of \<^verbatim>\<open>A..C\<close> lists
  version 2 first, \<^verbatim>\<open>update\<close> of \<^verbatim>\<open>B..C\<close> on the data of \<^verbatim>\<open>A..B\<close> lists version 1 first.
\<close>

theorem update_incremental_counterexample:
  "parse_git_log sample_git_log sample_atom_cls ''A..B'' True False =
     ([PkgChange (sample_change atom_pkg_1 ''A'' (sample_GitCommit ''aaa1111'' ''2020-01-01''))],
      Returns ())
   \<and> parse_git_log sample_git_log sample_atom_cls ''B..C'' True False =
     ([PkgChange (sample_change atom_pkg_2 ''A'' (sample_GitCommit ''bbb2222'' ''2020-02-01''))],
      Returns ())
   \<and> parse_git_log sample_git_log sample_atom_cls ''A..C'' True False =
     ([PkgChange (sample_change atom_pkg_2 ''A'' (sample_GitCommit ''bbb2222'' ''2020-02-01'')),
       PkgChange (sample_change atom_pkg_1 ''A'' (sample_GitCommit ''aaa1111'' ''2020-01-01''))],
      Returns ())
   \<and> seen_key (sample_change atom_pkg_1 ''A'' (sample_GitCommit ''aaa1111'' ''2020-01-01'')) \<noteq>
     seen_key (sample_change atom_pkg_2 ''A'' (sample_GitCommit ''bbb2222'' ''2020-02-01''))
   \<and> update sample_git_log sample_atom_cls ''A..B'' None False =
       Returns [(''cat'', [(''pkg'', [(''A'', [Tuple3 ''1'' ''2020-01-01'' ''aaa1111''])])])]
   \<and> update sample_git_log sample_atom_cls ''B..C''
        (Some [(''cat'', [(''pkg'', [(''A'', [Tuple3 ''1'' ''2020-01-01'' ''aaa1111''])])])]) False =
       Returns [(''cat'', [(''pkg'', [(''A'', [Tuple3 ''1'' ''2020-01-01'' ''aaa1111'',
                                                Tuple3 ''2'' ''2020-02-01'' ''bbb2222''])])])]
   \<and> update sample_git_log sample_atom_cls ''A..C'' None False =
       Returns [(''cat'', [(''pkg'', [(''A'', [Tuple3 ''2'' ''2020-02-01'' ''bbb2222'',
                                                Tuple3 ''1'' ''2020-01-01'' ''aaa1111''])])])]
   \<and> \<not> same_mapping
         [(''cat'', [(''pkg'', [(''A'', [Tuple3 ''2'' ''2020-02-01'' ''bbb2222'',
                                          Tuple3 ''1'' ''2020-01-01'' ''aaa1111''])])])]
         [(''cat'', [(''pkg'', [(''A'', [Tuple3 ''1'' ''2020-01-01'' ''aaa1111'',
                                          Tuple3 ''2'' ''2020-02-01'' ''bbb2222''])])])]"
proof -
  have ab: "parse_git_log sample_git_log sample_atom_cls ''A..B'' True False =
     ([PkgChange (sample_change atom_pkg_1 ''A'' (sample_GitCommit ''aaa1111'' ''2020-01-01''))],
      Returns ())"
    by code_simp
  have bc: "parse_git_log sample_git_log sample_atom_cls ''B..C'' True False =
     ([PkgChange (sample_change atom_pkg_2 ''A'' (sample_GitCommit ''bbb2222'' ''2020-02-01''))],
      Returns ())"
    by code_simp
  have ac: "parse_git_log sample_git_log sample_atom_cls ''A..C'' True False =
     ([PkgChange (sample_change atom_pkg_2 ''A'' (sample_GitCommit ''bbb2222'' ''2020-02-01'')),
       PkgChange (sample_change atom_pkg_1 ''A'' (sample_GitCommit ''aaa1111'' ''2020-01-01''))],
      Returns ())"
    by code_simp
  have keys: "seen_key (sample_change atom_pkg_1 ''A'' (sample_GitCommit ''aaa1111'' ''2020-01-01'')) \<noteq>
     seen_key (sample_change atom_pkg_2 ''A'' (sample_GitCommit ''bbb2222'' ''2020-02-01''))"
    by (simp add: seen_key_def sample_change_def atom_pkg_1_def atom_pkg_2_def)
  have u1: "update sample_git_log sample_atom_cls ''A..B'' None False =
       Returns [(''cat'', [(''pkg'', [(''A'', [Tuple3 ''1'' ''2020-01-01'' ''aaa1111''])])])]"
    by code_simp
  have u2: "update sample_git_log sample_atom_cls ''B..C''
        (Some [(''cat'', [(''pkg'', [(''A'', [Tuple3 ''1'' ''2020-01-01'' ''aaa1111''])])])]) False =
       Returns [(''cat'', [(''pkg'', [(''A'', [Tuple3 ''1'' ''2020-01-01'' ''aaa1111'',
                                                Tuple3 ''2'' ''2020-02-01'' ''bbb2222''])])])]"
    by code_simp
  have u3: "update sample_git_log sample_atom_cls ''A..C'' None False =
       Returns [(''cat'', [(''pkg'', [(''A'', [Tuple3 ''2'' ''2020-02-01'' ''bbb2222'',
                                                Tuple3 ''1'' ''2020-01-01'' ''aaa1111''])])])]"
    by code_simp
  have "lookup [(''cat'', [(''pkg'', [(''A'', [Tuple3 ''2'' ''2020-02-01'' ''bbb2222'',
                                          Tuple3 ''1'' ''2020-01-01'' ''aaa1111''])])])]
          ''cat'' ''pkg'' ''A'' \<noteq>
        lookup [(''cat'', [(''pkg'', [(''A'', [Tuple3 ''1'' ''2020-01-01'' ''aaa1111'',
                                          Tuple3 ''2'' ''2020-02-01'' ''bbb2222''])])])]
          ''cat'' ''pkg'' ''A''"
    by (simp add: lookup_def)
  then have ne: "\<not> same_mapping
         [(''cat'', [(''pkg'', [(''A'', [Tuple3 ''2'' ''2020-02-01'' ''bbb2222'',
                                          Tuple3 ''1'' ''2020-01-01'' ''aaa1111''])])])]
         [(''cat'', [(''pkg'', [(''A'', [Tuple3 ''1'' ''2020-01-01'' ''aaa1111'',
                                          Tuple3 ''2'' ''2020-02-01'' ''bbb2222''])])])]"
    unfolding same_mapping_def by blast
  from ab bc ac keys u1 u2 u3 ne show ?thesis by blast
qed

section \<open>Properties of the persisted cache\<close>

text \<open>
  C5. Let the cache file hold a cache whose schema version is not the current one, let
  \<^verbatim>\<open>update_cache\<close> run without \<^verbatim>\<open>force\<close>, and let the full-history update return. Then the
  stale file is removed, the loading ends as for an absent file, and the cache that is
  written and kept is the current head with the data of the update of \<^verbatim>\<open>origin/HEAD\<close> on
  empty data: nothing of it comes from the stale cache.
\<close>

theorem stale_cache_is_discarded:
  assumes "gc_version stale \<noteq> GitAddon_cache_version"
    and "update git_log atom_cls ''origin/HEAD'' (Some []) False = Returns d'"
  shows "load_cache False (Pickled stale) = (None, Missing, [Remove])
         \<and> update_cache_repo git_log atom_cls (Some cm) False False (Pickled stale) =
             ([Remove, Dump \<lparr>gc_data = d', gc_version = GitAddon_cache_version, gc_commit = cm\<rparr>],
              Pickled \<lparr>gc_data = d', gc_version = GitAddon_cache_version, gc_commit = cm\<rparr>,
              Cached \<lparr>gc_data = d', gc_version = GitAddon_cache_version, gc_commit = cm\<rparr>)
         \<and> snd (update_cache_repo git_log atom_cls (Some cm) False False (Pickled stale)) =
             snd (update_cache_repo git_log atom_cls (Some cm) False False Missing)"
  using assms by (simp add: load_cache_def update_cache_repo_def Let_def)

theorem stale_cache_is_discarded_witness:
  "gc_version \<lparr>gc_data = [(''gone'', [(''pkg'', [(''A'', [Tuple3 ''9'' ''2019-01-01'' ''0000000''])])])],
               gc_version = 3, gc_commit = ''0000000''\<rparr> \<noteq> GitAddon_cache_version
   \<and> update sample_git_log sample_atom_cls ''origin/HEAD'' (Some []) False =
       Returns [(''cat'', [(''pkg'', [(''A'', [Tuple3 ''2'' ''2020-02-01'' ''bbb2222'',
                                                Tuple3 ''1'' ''2020-01-01'' ''aaa1111''])])])]
   \<and> update_cache_repo sample_git_log sample_atom_cls (Some ''bbb2222'') False False
       (Pickled \<lparr>gc_data = [(''gone'', [(''pkg'', [(''A'', [Tuple3 ''9'' ''2019-01-01'' ''0000000''])])])],
                 gc_version = 3, gc_commit = ''0000000''\<rparr>) =
       ([Remove,
         Dump \<lparr>gc_data = [(''cat'', [(''pkg'', [(''A'', [Tuple3 ''2'' ''2020-02-01'' ''bbb2222'',
                                                   Tuple3 ''1'' ''2020-01-01'' ''aaa1111''])])])],
               gc_version = GitAddon_cache_version, gc_commit = ''bbb2222''\<rparr>],
        Pickled \<lparr>gc_data = [(''cat'', [(''pkg'', [(''A'', [Tuple3 ''2'' ''2020-02-01'' ''bbb2222'',
                                                   Tuple3 ''1'' ''2020-01-01'' ''aaa1111''])])])],
               gc_version = GitAddon_cache_version, gc_commit = ''bbb2222''\<rparr>,
        Cached \<lparr>gc_data = [(''cat'', [(''pkg'', [(''A'', [Tuple3 ''2'' ''2020-02-01'' ''bbb2222'',
                                                   Tuple3 ''1'' ''2020-01-01'' ''aaa1111''])])])],
               gc_version = GitAddon_cache_version, gc_commit = ''bbb2222''\<rparr>)"
proof -
  have v: "gc_version \<lparr>gc_data = [(''gone'', [(''pkg'', [(''A'', [Tuple3 ''9'' ''2019-01-01'' ''0000000''])])])],
               gc_version = 3, gc_commit = ''0000000''\<rparr> \<noteq> GitAddon_cache_version"
    by (simp add: GitAddon_cache_version_def)
  have u: "update sample_git_log sample_atom_cls ''origin/HEAD'' (Some []) False =
       Returns [(''cat'', [(''pkg'', [(''A'', [Tuple3 ''2'' ''2020-02-01'' ''bbb2222'',
                                                Tuple3 ''1'' ''2020-01-01'' ''aaa1111''])])])]"
    by code_simp
  from stale_cache_is_discarded [OF v u, of "''bbb2222''"] v u show ?thesis by blast
qed

section \<open>Properties of the history views\<close>

lemma versions_get_items:
  assumes "map_of d c = Some pd" and "map_of pd p = Some sd"
  shows "versions_get flt d (c, p) = filter (\<lambda>(st, dat). st \<in> flt) sd"
  using assms by (simp add: versions_get_def get_versions_def)

lemma versions_get_missing:
  assumes "map_of d c = None \<or> (\<exists>pd. map_of d c = Some pd \<and> map_of pd p = None)"
  shows "versions_get flt d (c, p) = []"
  using assms by (auto simp: versions_get_def get_versions_def)

lemma set_internal_gen_candidates:
  assumes "\<And>xs. set (sorter_cp xs) = set xs" and "\<And>xs. set (sorter_pkg xs) = set xs"
  shows "set (internal_gen_candidates flt d sorter_cp sorter_pkg [(c, p)]) =
           {raw_pkg_cls c p st t | st dat t. (st, dat) \<in> set (versions_get flt d (c, p)) \<and> t \<in> set dat}"
  by (auto simp: internal_gen_candidates_def assms)

text \<open>
  C6, as the code has it. For a cache entry in which the statuses of the package are
  the keys of a dictionary (no key twice), and for sorters that only reorder: the view
  of the removed packages yields, for a category and package, exactly the
  pseudo-packages of the tuples in the list of the status \<^verbatim>\<open>D\<close>; what the cache holds
  for the version under another status, and of which date, plays no part.
\<close>

theorem GitRemovedRepo_yields:
  assumes "\<And>xs. set (sorter_cp xs) = set xs" and "\<And>xs. set (sorter_pkg xs) = set xs"
    and "\<And>pd sd. map_of d c = Some pd \<Longrightarrow> map_of pd p = Some sd \<Longrightarrow> distinct (map fst sd)"
  shows "pkg \<in> set (internal_gen_candidates GitRemovedRepo_status_filter d sorter_cp sorter_pkg [(c, p)])
         \<longleftrightarrow> (\<exists>t \<in> set (entries d c p ''D''). pkg = raw_pkg_cls c p ''D'' t)"
proof (cases "\<exists>pd sd. map_of d c = Some pd \<and> map_of pd p = Some sd")
  case True
  then obtain pd sd where pd: "map_of d c = Some pd" and sd: "map_of pd p = Some sd"
    by blast
  have dist: "distinct (map fst sd)" by (rule assms(3) [OF pd sd])
  have items: "versions_get GitRemovedRepo_status_filter d (c, p) =
      filter (\<lambda>(st, dat). st \<in> GitRemovedRepo_status_filter) sd"
    by (rule versions_get_items [OF pd sd])
  have ent: "entries d c p ''D'' = (case map_of sd ''D'' of None \<Rightarrow> [] | Some l \<Rightarrow> l)"
    by (simp add: entries_def lookup_def pd sd)
  have key: "\<And>dat. (''D'', dat) \<in> set sd \<longleftrightarrow> map_of sd ''D'' = Some dat"
    using dist by simp
  show ?thesis
  proof (cases "map_of sd ''D''")
    case None
    with key show ?thesis
      unfolding set_internal_gen_candidates [OF assms(1,2)] items ent
      by (auto simp: GitRemovedRepo_status_filter_def)
  next
    case (Some l)
    with key have "\<And>dat. (''D'', dat) \<in> set sd \<longleftrightarrow> dat = l" by auto
    with Some show ?thesis
      unfolding set_internal_gen_candidates [OF assms(1,2)] items ent
      by (auto simp: GitRemovedRepo_status_filter_def)
  qed
next
  case False
  then have missing: "map_of d c = None \<or> (\<exists>pd. map_of d c = Some pd \<and> map_of pd p = None)"
    by (cases "map_of d c") auto
  have "versions_get GitRemovedRepo_status_filter d (c, p) = []"
    by (rule versions_get_missing [OF missing])
  moreover have "entries d c p ''D'' = []"
    using missing by (auto simp: entries_def lookup_def)
  ultimately show ?thesis
    unfolding set_internal_gen_candidates [OF assms(1,2)] by simp
qed

theorem GitRemovedRepo_yields_witness:
  "internal_gen_candidates GitRemovedRepo_status_filter data_DE (\<lambda>xs. xs) (\<lambda>xs. xs)
       [(''cat'', ''pkg'')] =
     [GitCommitPkg ''cat'' ''pkg'' ''D'' ''1'' ''2020-05-01'' (CommitHash ''eee5555'') None]
   \<and> entries data_DE ''cat'' ''pkg'' ''D'' = [Tuple3 ''1'' ''2020-05-01'' ''eee5555'']
   \<and> (GitCommitPkg ''cat'' ''pkg'' ''D'' ''1'' ''2020-05-01'' (CommitHash ''eee5555'') None
        \<in> set (internal_gen_candidates GitRemovedRepo_status_filter data_DE (\<lambda>xs. xs) (\<lambda>xs. xs)
                  [(''cat'', ''pkg'')])
      \<longleftrightarrow> (\<exists>t \<in> set (entries data_DE ''cat'' ''pkg'' ''D'').
             GitCommitPkg ''cat'' ''pkg'' ''D'' ''1'' ''2020-05-01'' (CommitHash ''eee5555'') None
               = raw_pkg_cls ''cat'' ''pkg'' ''D'' t))"
proof -
  have g: "internal_gen_candidates GitRemovedRepo_status_filter data_DE (\<lambda>xs. xs) (\<lambda>xs. xs)
       [(''cat'', ''pkg'')] =
     [GitCommitPkg ''cat'' ''pkg'' ''D'' ''1'' ''2020-05-01'' (CommitHash ''eee5555'') None]"
    by code_simp
  have e: "entries data_DE ''cat'' ''pkg'' ''D'' = [Tuple3 ''1'' ''2020-05-01'' ''eee5555'']"
    by code_simp
  have dict: "\<And>pd sd. map_of data_DE ''cat'' = Some pd \<Longrightarrow> map_of pd ''pkg'' = Some sd
      \<Longrightarrow> distinct (map fst sd)"
    by (auto simp: data_DE_def)
  have "GitCommitPkg ''cat'' ''pkg'' ''D'' ''1'' ''2020-05-01'' (CommitHash ''eee5555'') None
        \<in> set (internal_gen_candidates GitRemovedRepo_status_filter data_DE (\<lambda>xs. xs) (\<lambda>xs. xs)
                  [(''cat'', ''pkg'')])
      \<longleftrightarrow> (\<exists>t \<in> set (entries data_DE ''cat'' ''pkg'' ''D'').
             GitCommitPkg ''cat'' ''pkg'' ''D'' ''1'' ''2020-05-01'' (CommitHash ''eee5555'') None
               = raw_pkg_cls ''cat'' ''pkg'' ''D'' t)"
    by (rule GitRemovedRepo_yields [OF refl refl dict])
  with g e show ?thesis by blast
qed

text \<open>
  C6 as stated fails. In the range \<^verbatim>\<open>D..E\<close> version 1 of \<^verbatim>\<open>cat/pkg\<close> is deleted on
  2020-05-01 and added again on 2020-06-01. The cache built from it holds both, the most
  recent status of the version is \<^verbatim>\<open>A\<close> and not \<^verbatim>\<open>D\<close>, and the view of the removed packages
  yields the version all the same.
\<close>

theorem GitRemovedRepo_counterexample:
  "update sample_git_log sample_atom_cls ''D..E'' None False = Returns data_DE
   \<and> internal_gen_candidates GitRemovedRepo_status_filter data_DE (\<lambda>xs. xs) (\<lambda>xs. xs)
       [(''cat'', ''pkg'')] =
     [GitCommitPkg ''cat'' ''pkg'' ''D'' ''1'' ''2020-05-01'' (CommitHash ''eee5555'') None]
   \<and> pkg_version (GitCommitPkg ''cat'' ''pkg'' ''D'' ''1'' ''2020-05-01'' (CommitHash ''eee5555'') None)
       = ''1''
   \<and> recorded_dates data_DE ''cat'' ''pkg'' ''1'' = [(''A'', ''2020-06-01''), (''D'', ''2020-05-01'')]
   \<and> spec_most_recent_status data_DE ''cat'' ''pkg'' ''1'' ''A''
   \<and> \<not> spec_most_recent_status data_DE ''cat'' ''pkg'' ''1'' ''D''"
proof -
  have u: "update sample_git_log sample_atom_cls ''D..E'' None False = Returns data_DE"
    by code_simp
  have g: "internal_gen_candidates GitRemovedRepo_status_filter data_DE (\<lambda>xs. xs) (\<lambda>xs. xs)
       [(''cat'', ''pkg'')] =
     [GitCommitPkg ''cat'' ''pkg'' ''D'' ''1'' ''2020-05-01'' (CommitHash ''eee5555'') None]"
    by code_simp
  have r: "recorded_dates data_DE ''cat'' ''pkg'' ''1'' = [(''A'', ''2020-06-01''), (''D'', ''2020-05-01'')]"
    by (simp add: recorded_dates_def versions_get_def get_versions_def data_DE_def)
  have a: "spec_most_recent_status data_DE ''cat'' ''pkg'' ''1'' ''A''"
    unfolding spec_most_recent_status_def r by simp
  have d: "\<not> spec_most_recent_status data_DE ''cat'' ''pkg'' ''1'' ''D''"
    unfolding spec_most_recent_status_def r by simp
  from u g r a d show ?thesis by simp
qed

section \<open>Properties of the working-tree guard\<close>

lemma error_first_line_not_Returned [simp]: "error_first_line prefix err \<noteq> Returned"
  by (simp add: error_first_line_def split: list.splits)



text \<open>
  C10. When \<^verbatim>\<open>git ls-files\<close> exits with a non-zero status, \<^verbatim>\<open>__enter__\<close> does what it does
  on a clean tree: it runs no other command, returns without an error and leaves
  \<^verbatim>\<open>_stashed\<close> unset, and \<^verbatim>\<open>__exit__\<close> then runs no command.
\<close>

theorem ls_files_failure_as_clean:
  assumes "ls_files_returncode env \<noteq> 0"
  shows "GitStash_enter env = ([LsFiles], False, Returned)
         \<and> GitStash_enter env = GitStash_enter (env\<lparr>ls_files_returncode := 0, ls_files_stdout := []\<rparr>)
         \<and> GitStash_exit env (fst (snd (GitStash_enter env))) = ([], Returned)"
  using assms by (simp add: GitStash_enter_def GitStash_exit_def)

theorem ls_files_failure_as_clean_witness:
  "ls_files_returncode broken_tree \<noteq> 0
   \<and> GitStash_enter broken_tree = ([LsFiles], False, Returned)
   \<and> GitStash_enter broken_tree =
       GitStash_enter (broken_tree\<lparr>ls_files_returncode := 0, ls_files_stdout := []\<rparr>)
   \<and> GitStash_exit broken_tree (fst (snd (GitStash_enter broken_tree))) = ([], Returned)"
proof -
  have h: "ls_files_returncode broken_tree \<noteq> 0"
    by (simp add: broken_tree_def)
  from ls_files_failure_as_clean [OF h] h show ?thesis by blast
qed

section \<open>Properties of the scan-scope resolver\<close>

text \<open>
  C9. When the namespace has no targets, so that the diff is run, and the diff against
  the reference completes without any output, the call ends with \<^verbatim>\<open>parser.exit()\<close>: the
  program exits with status 0, no error is raised and no namespace with restrictions is
  returned.
\<close>

theorem no_diff_output_exits:
  assumes "targets ns = []"
    and "git_diff env (case val of Some v \<Rightarrow> v | None \<Rightarrow> ''origin'')
           (sort (category_dirs env) @ (if eclass_dir env then [''eclass''] else []))
         = DiffCompleted []"
  shows "ScanCommits_call env atom_cls ns val = CallParserExit"
  using assms by (simp add: ScanCommits_call_def Let_def)

theorem no_diff_output_exits_witness:
  "targets sample_namespace = []
   \<and> git_diff unchanged_repo ''origin'' [''cat'', ''eclass''] = DiffCompleted []
   \<and> ScanCommits_call unchanged_repo sample_atom_cls sample_namespace None = CallParserExit"
proof -
  have t: "targets sample_namespace = []"
    by (simp add: sample_namespace_def)
  have d: "git_diff unchanged_repo (case None of Some v \<Rightarrow> v | None \<Rightarrow> ''origin'')
           (sort (category_dirs unchanged_repo) @
            (if eclass_dir unchanged_repo then [''eclass''] else []))
         = DiffCompleted []"
    by (simp add: unchanged_repo_def)
  have d': "git_diff unchanged_repo ''origin'' [''cat'', ''eclass''] = DiffCompleted []"
    by (simp add: unchanged_repo_def)
  from no_diff_output_exits [OF t d, of sample_atom_cls] t d' show ?thesis by simp
qed

end
